theory Spec2Isabelle
  imports Main "HOL-Library.Word" "HOL-Library.Multiset"
begin

section \<open>Command line parsing: \<open>__config_LoadCmdLine\<close> of src/config/cmdline.c\<close>

text \<open>
  The function builds the tables of \<open>getopt_long\<close> from the configuration items
  of every module, scans the argument vector with them and writes each recognised
  option to the configuration. The model follows its three parts: the table
  construction (lines 121-257), the scanner it calls, and the loop body that resolves
  and stores one recognised option (lines 264-417).

  The build modelled is the one without \<open>__APPLE__\<close>, with a signed plain
  \<open>char\<close>; strings are lists of characters with no NUL inside.
\<close>

subsection \<open>Data\<close>

text \<open>
  Modelled from the spec: the values of \<open>i_type\<close>. The constants
  \<open>CONFIG_ITEM_*\<close> and the mask \<open>CONFIG_HINT\<close> are declared in a header
  that is not under src/; the spec lists the kinds. \<open>i_type & CONFIG_HINT\<close> is
  \<open>i_type = CONFIG_HINT\<close> here.
\<close>

datatype config_type =
    CONFIG_HINT
  | CONFIG_ITEM_STRING
  | CONFIG_ITEM_PASSWORD
  | CONFIG_ITEM_FILE
  | CONFIG_ITEM_DIRECTORY
  | CONFIG_ITEM_MODULE
  | CONFIG_ITEM_MODULE_LIST
  | CONFIG_ITEM_MODULE_LIST_CAT
  | CONFIG_ITEM_MODULE_CAT
  | CONFIG_ITEM_INTEGER
  | CONFIG_ITEM_FLOAT
  | CONFIG_ITEM_KEY
  | CONFIG_ITEM_BOOL

text \<open>
  \<open>module_config_t\<close>, with the fields the function reads. \<open>i_short\<close> is the
  character \<open>CHR 0x00\<close> when the item has no short option; \<open>psz_current\<close> is
  \<open>None\<close> for the NULL pointer.
\<close>

record module_config_t =
  psz_name :: string
  i_short :: char
  i_type :: config_type
  psz_current :: "string option"
  b_strict :: bool

text \<open>
  \<open>module_t\<close>: the array \<open>p_config\<close> of \<open>confsize\<close> items, and the two
  counters the module bank keeps beside it.
\<close>

record module_t =
  i_config_items :: nat
  i_bool_items :: nat
  p_config :: "module_config_t list"

text \<open>The object \<open>p_this\<close>: the module list it finds, and the program's name.\<close>

record vlc_object_t =
  p_list :: "module_t list"
  psz_object_name :: string

text \<open>\<open>struct option\<close> of getopt.h; every entry's \<open>flag\<close> pointer is \<open>&flag\<close>.\<close>

datatype has_arg_t = no_argument | required_argument | optional_argument

record option_entry =
  opt_name :: "string option"
  has_arg :: has_arg_t
  opt_val :: int

text \<open>
  The three tables the function fills: the long options, the table of short options
  (indexed by \<open>(int)\<close> of the character) and the specification string of the short
  options. The arrays have the sizes of lines 134, 87 and 142: \<open>i_opts + 1\<close>
  entries, the slots 0 to 255, and \<open>2 * i_opts + 1\<close> characters.
  \<open>p_longopts\<close> and \<open>psz_shortopts\<close> hold what has been written so far, in the
  order of the indices \<open>i_index\<close> and \<open>i_shortopts\<close>; \<open>out_of_bounds\<close> records
  that a write has fallen outside its array.
\<close>

record tables =
  p_longopts :: "option_entry list"
  pp_shortopts :: "int \<Rightarrow> module_config_t option"
  psz_shortopts :: string
  i_opts :: nat
  out_of_bounds :: bool

text \<open>
  Modelled from the spec: the configuration store is not under src/. Section 1: it is
  consumed through typed put operations keyed by the option's name. The model records
  the calls of
  \<open>config_PutPsz\<close>, \<open>config_PutInt\<close> and \<open>config_PutFloat\<close> in order. The
  float of \<open>config_PutFloat\<close> is kept as the text \<open>atof\<close> is applied to.
\<close>

datatype config_put =
    PutPsz string "string option"
  | PutInt string int
  | PutFloat string string

text \<open>
  What the call can change: the store, the standard error stream, the messages of
  \<open>msg_Err\<close>, the caller's argument array, the private copy of it (when one is
  allocated) and getopt's global \<open>optopt\<close>.
\<close>

record vlc_state =
  config_store :: "config_put list"
  stderr_out :: "string list"
  msg_err :: "string list"
  caller_argv :: "string list"
  private_argv :: "string list option"
  optopt :: int

text \<open>The array \<open>ppsz_argv\<close> points to.\<close>

datatype argv_ref = Caller_array | Private_copy

definition read_argv :: "argv_ref \<Rightarrow> vlc_state \<Rightarrow> string list" where
  "read_argv r s =
     (case r of
        Caller_array \<Rightarrow> caller_argv s
      | Private_copy \<Rightarrow> (case private_argv s of Some a \<Rightarrow> a | None \<Rightarrow> []))"

definition write_argv :: "argv_ref \<Rightarrow> string list \<Rightarrow> vlc_state \<Rightarrow> vlc_state" where
  "write_argv r a s =
     (case r of
        Caller_array \<Rightarrow> s\<lparr>caller_argv := a\<rparr>
      | Private_copy \<Rightarrow> s\<lparr>private_argv := Some a\<rparr>)"

text \<open>
  How the call ends: it returns a status, or it dereferences a null pointer (line 310
  when the second \<open>config_FindConfig\<close> fails; \<open>strtol\<close> and \<open>atof\<close> on a
  null \<open>optarg\<close>), or it has written outside one of its arrays while it filled the
  tables (lines 195-257).
\<close>

datatype outcome = Return int | Null_dereference | Out_of_bounds

text \<open>
  Allocation: each \<open>malloc\<close> and \<open>strdup\<close> takes the next answer of the
  list; when the list is used up, allocation succeeds.
\<close>

definition alloc :: "bool list \<Rightarrow> bool \<times> bool list" where
  "alloc h = (case h of [] \<Rightarrow> (True, []) | b # bs \<Rightarrow> (b, bs))"

subsection \<open>\<open>strtol\<close> and \<open>atoi\<close>\<close>

text \<open>
  Modelled from the spec: \<open>strtol\<close> and \<open>atoi\<close> are the C library's, not under
  src/. Section 4.4: the text is parsed as a base-agnostic integer (\<open>0x\<close> and \<open>0\<close>
  prefixes) and a textual failure gives zero. The model is the conversion of the C
  standard: white space, an optional sign, with base 0 the prefixes
  \<open>0x\<close> (hexadecimal) and \<open>0\<close> (octal), then the longest run of digits of the
  base; no digits give 0. The result is clamped to \<open>long\<close> (64 bits) and
  \<open>config_PutInt\<close> receives it as an \<open>int\<close> (32 bits).
\<close>

definition isspace :: "char \<Rightarrow> bool" where
  "isspace c = (c \<in> {CHR 0x20, CHR 0x09, CHR 0x0A, CHR 0x0B, CHR 0x0C, CHR 0x0D})"

definition digit_val :: "char \<Rightarrow> nat option" where
  "digit_val c =
     (let n = (of_char c :: nat) in
      if 48 \<le> n \<and> n \<le> 57 then Some (n - 48)
      else if 97 \<le> n \<and> n \<le> 122 then Some (n - 87)
      else if 65 \<le> n \<and> n \<le> 90 then Some (n - 55)
      else None)"

fun digits_of :: "nat \<Rightarrow> string \<Rightarrow> nat list" where
  "digits_of base [] = []"
| "digits_of base (c # cs) =
     (case digit_val c of
        None \<Rightarrow> []
      | Some d \<Rightarrow> if d < base then d # digits_of base cs else [])"

definition digits_value :: "nat \<Rightarrow> nat list \<Rightarrow> int" where
  "digits_value base ds = foldl (\<lambda>acc d. acc * int base + int d) 0 ds"

definition strip_sign :: "string \<Rightarrow> bool \<times> string" where
  "strip_sign s =
     (case s of
        [] \<Rightarrow> (False, [])
      | c # cs \<Rightarrow> if c = CHR ''-'' then (True, cs)
                 else if c = CHR ''+'' then (False, cs) else (False, s))"

definition is_hex_prefix :: "string \<Rightarrow> bool" where
  "is_hex_prefix s =
     (case s of
        z # x # d # _ \<Rightarrow>
          z = CHR ''0'' \<and> (x = CHR ''x'' \<or> x = CHR ''X'') \<and>
          (case digit_val d of None \<Rightarrow> False | Some v \<Rightarrow> v < 16)
      | _ \<Rightarrow> False)"

definition clamp_long :: "int \<Rightarrow> int" where
  "clamp_long v = max (- (2 ^ 63)) (min (2 ^ 63 - 1) v)"

definition strtol :: "string \<Rightarrow> nat \<Rightarrow> int" where
  "strtol s base =
     (case strip_sign (dropWhile isspace s) of
        (neg, t) \<Rightarrow>
          let (b, u) =
                (if (base = 0 \<or> base = 16) \<and> is_hex_prefix t then (16, drop 2 t)
                 else if base = 0 then (if take 1 t = ''0'' then (8, t) else (10, t))
                 else (base, t));
              v = digits_value b (digits_of b u)
          in clamp_long (if neg then - v else v))"

text \<open>
  The text holds no number for base 0: after the white space and the sign, its first
  character is not a decimal digit.
\<close>

definition no_conversion :: "string \<Rightarrow> bool" where
  "no_conversion a =
     (case snd (strip_sign (dropWhile isspace a)) of
        [] \<Rightarrow> True
      | c # _ \<Rightarrow> (case digit_val c of None \<Rightarrow> True | Some d \<Rightarrow> 10 \<le> d))"

definition int_of_long :: "int \<Rightarrow> int" where
  "int_of_long v = sint (word_of_int v :: 32 word)"

definition atoi :: "string \<Rightarrow> int" where
  "atoi s = int_of_long (strtol s 10)"

subsection \<open>The tables (lines 121-257)\<close>

text \<open>Lines 121-132: the number of long options to allocate.\<close>

definition count_opts :: "module_t list \<Rightarrow> nat" where
  "count_opts ms = foldl (\<lambda>n p_parser. n + (i_config_items p_parser + 2 * i_bool_items p_parser)) 0 ms"

text \<open>
  A write to \<open>p_longopts[i_index]\<close>: the array has \<open>i_opts + 1\<close> entries, and
  \<open>i_index\<close> is the number of entries written.
\<close>

definition longopt_slot :: "tables \<Rightarrow> tables" where
  "longopt_slot t = t\<lparr>out_of_bounds := out_of_bounds t \<or> i_opts t + 1 \<le> length (p_longopts t)\<rparr>"

definition add_longopt :: "string \<Rightarrow> has_arg_t \<Rightarrow> int \<Rightarrow> tables \<Rightarrow> tables" where
  "add_longopt n a v t =
     (longopt_slot t)\<lparr>p_longopts := p_longopts t @ [\<lparr>opt_name = Some n, has_arg = a, opt_val = v\<rparr>]\<rparr>"

text \<open>
  \<open>(int)\<close> of a plain \<open>char\<close>, which is a signed byte in the build modelled: the
  characters from \<open>0x80\<close> are negative.
\<close>

definition char_index :: "char \<Rightarrow> int" where
  "char_index c = (if (of_char c :: int) < 128 then of_char c else of_char c - 256)"

text \<open>
  Lines 231-248: the short option of an item. The slot of \<open>pp_shortopts\<close> is
  outside the array for a negative index, and the characters written to
  \<open>psz_shortopts\<close> (one, two, or three for a \<open>v\<close> that is not a boolean) are
  outside it when they go beyond the \<open>2 * i_opts + 1\<close> allocated.
\<close>

definition add_shortopt :: "module_config_t \<Rightarrow> tables \<Rightarrow> tables" where
  "add_shortopt p_item t =
     (if i_short p_item \<noteq> CHR 0x00 then
        t\<lparr>pp_shortopts := (pp_shortopts t)(char_index (i_short p_item) \<mapsto> p_item),
          psz_shortopts := psz_shortopts t @ [i_short p_item] @
            (if i_type p_item \<noteq> CONFIG_ITEM_BOOL
             then '':'' @ (if i_short p_item = CHR ''v'' then '':'' else [])
             else []),
          out_of_bounds := out_of_bounds t \<or> char_index (i_short p_item) < 0 \<or>
            2 * i_opts t + 1 <
              length (psz_shortopts t) +
                (if i_type p_item \<noteq> CONFIG_ITEM_BOOL
                 then (if i_short p_item = CHR ''v'' then 3 else 2) else 1)\<rparr>
      else t)"

text \<open>
  Lines 190-248, one item: a hint is skipped; a failed allocation of a name leaves the
  rest of the item out (\<open>continue\<close>), its short option too. The result of
  \<open>strdup\<close> is written to the slot before it is tested (line 195).
\<close>

definition fill_item :: "bool list \<times> tables \<Rightarrow> module_config_t \<Rightarrow> bool list \<times> tables" where
  "fill_item ht p_item =
     (case ht of (h, t) \<Rightarrow>
        if i_type p_item = CONFIG_HINT then (h, t)
        else
          (case alloc h of (ok1, h1) \<Rightarrow>
             if \<not> ok1 then (h1, longopt_slot t)
             else
               let t1 = add_longopt (psz_name p_item)
                          (if i_type p_item = CONFIG_ITEM_BOOL then no_argument else required_argument)
                          0 t
               in if i_type p_item = CONFIG_ITEM_BOOL then
                    (case alloc h1 of (ok2, h2) \<Rightarrow>
                       if \<not> ok2 then (h2, t1)
                       else
                         let t2 = add_longopt (''no'' @ psz_name p_item) no_argument 1 t1
                         in (case alloc h2 of (ok3, h3) \<Rightarrow>
                               if \<not> ok3 then (h3, t2)
                               else (h3, add_shortopt p_item
                                           (add_longopt (''no-'' @ psz_name p_item) no_argument 1 t2))))
                  else (h1, add_shortopt p_item t1)))"

text \<open>Lines 177-250: every module with configuration items, every item of it.\<close>

definition fill_module :: "bool list \<times> tables \<Rightarrow> module_t \<Rightarrow> bool list \<times> tables" where
  "fill_module ht p_parser =
     (if i_config_items p_parser = 0 then ht else foldl fill_item ht (p_config p_parser))"

definition zero_option :: option_entry where
  "zero_option = \<lparr>opt_name = None, has_arg = no_argument, opt_val = 0\<rparr>"

definition empty_tables :: "nat \<Rightarrow> tables" where
  "empty_tables n =
     \<lparr>p_longopts = [], pp_shortopts = (\<lambda>_. None), psz_shortopts = [], i_opts = n,
      out_of_bounds = False\<rparr>"

text \<open>
  Lines 121-257: the options counted, the tables filled and closed: the zeroed entry
  after the last long option (line 256) and the NUL after the last character of the
  specification (line 257, not part of the list \<open>psz_shortopts\<close>).
\<close>

definition build_tables :: "module_t list \<Rightarrow> bool list \<Rightarrow> bool list \<times> tables" where
  "build_tables ms h =
     (case foldl fill_module (h, empty_tables (count_opts ms)) ms of
        (h', t) \<Rightarrow>
          (h', t\<lparr>p_longopts := p_longopts t @ [zero_option],
                 out_of_bounds := out_of_bounds t \<or> i_opts t + 1 \<le> length (p_longopts t) \<or>
                   2 * i_opts t + 1 \<le> length (psz_shortopts t)\<rparr>))"

subsection \<open>The scanner \<open>getopt_long\<close>\<close>

text \<open>
  Modelled from the spec: \<open>getopt_long\<close> is not under src/ (the C library's, or
  extras/getopt.c). The model is the scanner of section 4.3 of the spec with the
  standard permutation: long options matched by exact name, \<open>--name=value\<close> and
  \<open>--name value\<close>, short options in clusters, a required argument attached or in the
  next token, an optional argument (\<open>::\<close>) attached only, \<open>--\<close> ending the options,
  and the non-options moved behind the options scanned. It returns \<open>?\<close> (63) for an
  unknown option or a missing argument and sets \<open>optopt\<close>, and \<open>-1\<close> at the end.
  The scan position is \<open>optind\<close>, the rest of a cluster \<open>nextchar\<close>, and the
  non-options skipped are the elements from \<open>first_nonopt\<close> up to \<open>last_nonopt\<close>.
\<close>

record getopt_state =
  optind :: nat
  nextchar :: string
  first_nonopt :: nat
  last_nonopt :: nat

text \<open>What one call hands to the loop: its value, and what it wrote to
  \<open>i_index\<close>, \<open>flag\<close> and \<open>optarg\<close> (the first two only when it returns 0).\<close>

record getopt_result =
  i_cmd :: int
  i_index :: nat
  flag :: int
  optarg :: "string option"

definition getopt_initialize :: getopt_state where
  "getopt_initialize = \<lparr>optind = 1, nextchar = [], first_nonopt = 1, last_nonopt = 1\<rparr>"

definition getopt_ret :: "int \<Rightarrow> getopt_result" where
  "getopt_ret c = \<lparr>i_cmd = c, i_index = 0, flag = 0, optarg = None\<rparr>"

definition exchange :: "string list \<Rightarrow> getopt_state \<Rightarrow> string list \<times> getopt_state" where
  "exchange argv g =
     (let scanned = drop (first_nonopt g) (take (optind g) argv);
          nonopts = take (last_nonopt g - first_nonopt g) scanned;
          opts = drop (last_nonopt g - first_nonopt g) scanned
      in (take (first_nonopt g) (take (optind g) argv) @ opts @ nonopts @ drop (optind g) argv,
          g\<lparr>first_nonopt := first_nonopt g + (optind g - last_nonopt g), last_nonopt := optind g\<rparr>))"

definition nonoption :: "string \<Rightarrow> bool" where
  "nonoption tok = (case tok of [] \<Rightarrow> True | c # cs \<Rightarrow> c \<noteq> CHR ''-'' \<or> cs = [])"

definition is_long_token :: "string \<Rightarrow> bool" where
  "is_long_token tok = (case tok of _ # c # _ \<Rightarrow> c = CHR ''-'' | _ \<Rightarrow> False)"

definition getopt_finish :: "getopt_state \<Rightarrow> getopt_state" where
  "getopt_finish g = (if first_nonopt g \<noteq> last_nonopt g then g\<lparr>optind := first_nonopt g\<rparr> else g)"

text \<open>
  At a token boundary the options scanned since the last non-options are moved before
  them, and the non-options that follow are skipped.
\<close>

definition getopt_permute :: "string list \<Rightarrow> getopt_state \<Rightarrow> string list \<times> getopt_state" where
  "getopt_permute argv g0 =
     (let g1 = g0\<lparr>last_nonopt := min (last_nonopt g0) (optind g0),
                  first_nonopt := min (first_nonopt g0) (optind g0)\<rparr>
      in if first_nonopt g1 \<noteq> last_nonopt g1 \<and> last_nonopt g1 \<noteq> optind g1 then exchange argv g1
         else if last_nonopt g1 \<noteq> optind g1 then (argv, g1\<lparr>first_nonopt := optind g1\<rparr>)
         else (argv, g1))"

definition getopt_skip :: "string list \<Rightarrow> getopt_state \<Rightarrow> getopt_state" where
  "getopt_skip argv g =
     (let k = length (takeWhile nonoption (drop (optind g) argv))
      in g\<lparr>optind := optind g + k, last_nonopt := optind g + k\<rparr>)"

text \<open>The token \<open>--\<close>: everything after it is a non-option.\<close>

definition getopt_dashdash :: "string list \<Rightarrow> getopt_state \<Rightarrow> string list \<times> getopt_state" where
  "getopt_dashdash argv g3 =
     (let g4 = g3\<lparr>optind := optind g3 + 1\<rparr>;
          (argv5, g5) =
            (if first_nonopt g4 \<noteq> last_nonopt g4 \<and> last_nonopt g4 \<noteq> optind g4
             then exchange argv g4
             else if first_nonopt g4 = last_nonopt g4 then (argv, g4\<lparr>first_nonopt := optind g4\<rparr>)
             else (argv, g4))
      in (argv5, getopt_finish (g5\<lparr>last_nonopt := length argv5, optind := length argv5\<rparr>)))"

text \<open>
  A call at a token boundary: it stops at \<open>--\<close> or at the end (the flag returned),
  else it enters the option at \<open>optind\<close>.
\<close>

definition getopt_advance :: "string list \<Rightarrow> getopt_state \<Rightarrow> bool \<times> string list \<times> getopt_state" where
  "getopt_advance argv g0 =
     (case getopt_permute argv g0 of
        (argv2, g2) \<Rightarrow>
          let g3 = getopt_skip argv2 g2
          in if optind g3 < length argv2 \<and> argv2 ! optind g3 = ''--''
             then (True, getopt_dashdash argv2 g3)
             else if \<not> optind g3 < length argv2 then (True, argv2, getopt_finish g3)
             else (False, argv2,
                   g3\<lparr>nextchar := drop (if is_long_token (argv2 ! optind g3) then 2 else 1)
                                       (argv2 ! optind g3)\<rparr>))"

text \<open>The first entry of the table with exactly this name, up to the zeroed entry.\<close>

fun lookup_long :: "string \<Rightarrow> option_entry list \<Rightarrow> nat \<Rightarrow> nat option" where
  "lookup_long nm [] i = None"
| "lookup_long nm (e # es) i =
     (case opt_name e of
        None \<Rightarrow> None
      | Some n \<Rightarrow> if n = nm then Some i else lookup_long nm es (Suc i))"

definition getopt_long_option ::
  "string list \<Rightarrow> option_entry list \<Rightarrow> getopt_state \<Rightarrow> int \<Rightarrow> getopt_result \<times> getopt_state \<times> int" where
  "getopt_long_option argv longopts g oo =
     (let nm = takeWhile (\<lambda>c. c \<noteq> CHR ''='') (nextchar g);
          nameend = dropWhile (\<lambda>c. c \<noteq> CHR ''='') (nextchar g);
          g1 = g\<lparr>optind := optind g + 1, nextchar := []\<rparr>
      in case lookup_long nm longopts 0 of
           None \<Rightarrow> (getopt_ret 63, g1, 0)
         | Some i \<Rightarrow>
             let pfound = longopts ! i;
                 found = \<lparr>i_cmd = 0, i_index = i, flag = opt_val pfound, optarg = None\<rparr>
             in if nameend \<noteq> [] then
                  (if has_arg pfound \<noteq> no_argument
                   then (found\<lparr>optarg := Some (tl nameend)\<rparr>, g1, oo)
                   else (getopt_ret 63, g1, opt_val pfound))
                else if has_arg pfound = required_argument then
                  (if optind g1 < length argv
                   then (found\<lparr>optarg := Some (argv ! optind g1)\<rparr>, g1\<lparr>optind := optind g1 + 1\<rparr>, oo)
                   else (getopt_ret 63, g1, opt_val pfound))
                else (found, g1, oo))"

definition getopt_short_option ::
  "string list \<Rightarrow> string \<Rightarrow> getopt_state \<Rightarrow> int \<Rightarrow> getopt_result \<times> getopt_state \<times> int" where
  "getopt_short_option argv optstring g oo =
     (case nextchar g of
        [] \<Rightarrow> (getopt_ret 63, g\<lparr>optind := optind g + 1\<rparr>, oo)
      | c # nc \<Rightarrow>
          let g1 = g\<lparr>nextchar := nc, optind := (if nc = [] then optind g + 1 else optind g)\<rparr>;
              temp = dropWhile (\<lambda>x. x \<noteq> c) optstring
          in if temp = [] \<or> c = CHR '':'' then (getopt_ret 63, g1, of_char c)
             else if take 1 (tl temp) = '':'' then
               (if take 1 (tl (tl temp)) = '':'' then
                  (if nc \<noteq> []
                   then ((getopt_ret (of_char c))\<lparr>optarg := Some nc\<rparr>,
                         g1\<lparr>optind := optind g1 + 1, nextchar := []\<rparr>, oo)
                   else (getopt_ret (of_char c), g1\<lparr>nextchar := []\<rparr>, oo))
                else if nc \<noteq> []
                   then ((getopt_ret (of_char c))\<lparr>optarg := Some nc\<rparr>,
                         g1\<lparr>optind := optind g1 + 1, nextchar := []\<rparr>, oo)
                else if \<not> optind g1 < length argv
                   then (getopt_ret 63, g1\<lparr>nextchar := []\<rparr>, of_char c)
                else ((getopt_ret (of_char c))\<lparr>optarg := Some (argv ! optind g1)\<rparr>,
                      g1\<lparr>optind := optind g1 + 1, nextchar := []\<rparr>, oo))
             else (getopt_ret (of_char c), g1, oo))"

definition getopt_long ::
  "string list \<Rightarrow> string \<Rightarrow> option_entry list \<Rightarrow> getopt_state \<Rightarrow> int \<Rightarrow>
   getopt_result \<times> string list \<times> getopt_state \<times> int" where
  "getopt_long argv optstring longopts g oo =
     (if length argv < 1 then (getopt_ret (- 1), argv, g, oo)
      else
        (case (if nextchar g = [] then getopt_advance argv g else (False, argv, g)) of
           (fin, argv1, g1) \<Rightarrow>
             if fin then (getopt_ret (- 1), argv1, g1, oo)
             else if nextchar g = [] \<and> is_long_token (argv1 ! optind g1) then
               (case getopt_long_option argv1 longopts g1 oo of
                  (r, g2, oo2) \<Rightarrow> (r, argv1, g2, oo2))
             else
               (case getopt_short_option argv1 optstring g1 oo of
                  (r, g2, oo2) \<Rightarrow> (r, argv1, g2, oo2))))"

subsection \<open>Resolving and storing one option (lines 267-417)\<close>

text \<open>
  Modelled from the spec: \<open>config_FindConfig\<close> is not under src/. Section 4.4:
  the descriptor is resolved by exact name in the live registry; hints are not options.
\<close>

definition config_FindConfig :: "vlc_object_t \<Rightarrow> string \<Rightarrow> module_config_t option" where
  "config_FindConfig p_this nm =
     find (\<lambda>p_item. i_type p_item \<noteq> CONFIG_HINT \<and> psz_name p_item = nm)
       (concat (map p_config (p_list p_this)))"

text \<open>
  What the loop reads besides the scanner's result: the object, the mode, the tables,
  the array \<open>ppsz_argv\<close> points to, and \<open>ConfigStringToKey\<close> (outside src/, a
  parameter).
\<close>

record cmdline_env =
  p_this :: vlc_object_t
  b_ignore_errors :: bool
  tabs :: tables
  ppsz_argv :: argv_ref
  ConfigStringToKey :: "string option \<Rightarrow> int"

text \<open>One pass of the loop body continues with the next token or leaves the function.\<close>

datatype step = Continue "32 word" vlc_state | Stop outcome vlc_state

definition config_Put :: "config_put \<Rightarrow> vlc_state \<Rightarrow> vlc_state" where
  "config_Put w s = s\<lparr>config_store := config_store s @ [w]\<rparr>"

definition print_stderr :: "string list \<Rightarrow> vlc_state \<Rightarrow> vlc_state" where
  "print_stderr ls s = s\<lparr>stderr_out := stderr_out s @ ls\<rparr>"

text \<open>Lines 310-334: the switch of a long option, on the type of the descriptor found.\<close>

definition store_long ::
  "cmdline_env \<Rightarrow> string \<Rightarrow> config_type \<Rightarrow> getopt_result \<Rightarrow> 32 word \<Rightarrow> vlc_state \<Rightarrow> step" where
  "store_long env nm ty r i_verbose s =
     (if ty \<in> {CONFIG_ITEM_STRING, CONFIG_ITEM_PASSWORD, CONFIG_ITEM_FILE, CONFIG_ITEM_DIRECTORY,
               CONFIG_ITEM_MODULE, CONFIG_ITEM_MODULE_LIST, CONFIG_ITEM_MODULE_LIST_CAT,
               CONFIG_ITEM_MODULE_CAT}
      then Continue i_verbose (config_Put (PutPsz nm (optarg r)) s)
      else if ty = CONFIG_ITEM_INTEGER then
        (case optarg r of
           None \<Rightarrow> Stop Null_dereference s
         | Some a \<Rightarrow> Continue i_verbose (config_Put (PutInt nm (int_of_long (strtol a 0))) s))
      else if ty = CONFIG_ITEM_FLOAT then
        (case optarg r of
           None \<Rightarrow> Stop Null_dereference s
         | Some a \<Rightarrow> Continue i_verbose (config_Put (PutFloat nm a) s))
      else if ty = CONFIG_ITEM_KEY then
        Continue i_verbose (config_Put (PutInt nm (ConfigStringToKey env (optarg r))) s)
      else if ty = CONFIG_ITEM_BOOL then
        Continue i_verbose (config_Put (PutInt nm (if flag r = 0 then 1 else 0)) s)
      else Continue i_verbose s)"

text \<open>Lines 354-379: the verbosity counter after one \<open>-v\<close>.\<close>

definition verbose_step :: "32 word \<Rightarrow> string option \<Rightarrow> 32 word" where
  "verbose_step i_verbose oa =
     (case oa of
        None \<Rightarrow> i_verbose + 1
      | Some a \<Rightarrow>
          if take 1 a = ''v''
          then i_verbose + 1 + of_nat (length (takeWhile (\<lambda>c. c = CHR ''v'') a))
          else i_verbose + word_of_int (atoi a))"

text \<open>Lines 340-392: the switch of a short option.\<close>

definition store_short ::
  "module_config_t \<Rightarrow> getopt_result \<Rightarrow> 32 word \<Rightarrow> vlc_state \<Rightarrow> step" where
  "store_short p r i_verbose s =
     (if i_type p \<in> {CONFIG_ITEM_STRING, CONFIG_ITEM_PASSWORD, CONFIG_ITEM_FILE, CONFIG_ITEM_DIRECTORY,
                     CONFIG_ITEM_MODULE, CONFIG_ITEM_MODULE_CAT, CONFIG_ITEM_MODULE_LIST,
                     CONFIG_ITEM_MODULE_LIST_CAT}
      then Continue i_verbose (config_Put (PutPsz (psz_name p) (optarg r)) s)
      else if i_type p = CONFIG_ITEM_INTEGER then
        (if i_cmd r = of_char CHR ''v'' then
           let v = verbose_step i_verbose (optarg r)
           in Continue v (config_Put (PutInt (psz_name p) (sint v)) s)
         else
           (case optarg r of
              None \<Rightarrow> Stop Null_dereference s
            | Some a \<Rightarrow>
                Continue i_verbose (config_Put (PutInt (psz_name p) (int_of_long (strtol a 0))) s)))
      else if i_type p = CONFIG_ITEM_BOOL then
        Continue i_verbose (config_Put (PutInt (psz_name p) 1) s)
      else Continue i_verbose s)"

text \<open>Lines 394-416: the diagnostic of an unknown option.\<close>

definition unknown_option_message :: "cmdline_env \<Rightarrow> getopt_state \<Rightarrow> vlc_state \<Rightarrow> string list" where
  "unknown_option_message env g s =
     [psz_object_name (p_this env) @ '': unknown option or missing mandatory argument '',
      (if optopt s \<noteq> 0 then [CHR 0x60, CHR ''-'', char_of (optopt s), CHR 0x27, CHR 0x0A]
       else [CHR 0x60] @ read_argv (ppsz_argv env) s ! (optind g - 1) @ [CHR 0x27, CHR 0x0A]),
      ''Try '' @ [CHR 0x60] @ psz_object_name (p_this env) @ '' --help'' @ [CHR 0x27] @
        '' for more information.'' @ [CHR 0x0A]]"

text \<open>Lines 339-416: a short option, or an unknown one.\<close>

definition short_or_unknown ::
  "cmdline_env \<Rightarrow> getopt_result \<Rightarrow> getopt_state \<Rightarrow> 32 word \<Rightarrow> vlc_state \<Rightarrow> step" where
  "short_or_unknown env r g i_verbose s =
     (case pp_shortopts (tabs env) (i_cmd r) of
        Some p \<Rightarrow> store_short p r i_verbose s
      | None \<Rightarrow>
          if \<not> b_ignore_errors env
          then Stop (Return (- 1)) (print_stderr (unknown_option_message env g s) s)
          else Continue i_verbose s)"

text \<open>Line 274: the name of the option a long entry stands for.\<close>

definition long_name :: "cmdline_env \<Rightarrow> getopt_result \<Rightarrow> string" where
  "long_name env r =
     (let n = (case opt_name (p_longopts (tabs env) ! i_index r) of Some n \<Rightarrow> n | None \<Rightarrow> [])
      in if flag r \<noteq> 0 then drop (if 2 < length n \<and> n ! 2 = CHR ''-'' then 3 else 2) n else n)"

definition removed_message :: "module_config_t \<Rightarrow> string" where
  "removed_message p_conf =
     ''Warning: option --'' @ psz_name p_conf @ '' no longer exists.'' @ [CHR 0x0A]"

definition deprecated_message :: "bool \<Rightarrow> module_config_t \<Rightarrow> string \<Rightarrow> string" where
  "deprecated_message ignore p_conf cur =
     (if ignore then ''Warning'' else ''Error'') @ '': option --'' @ psz_name p_conf @
       '' is deprecated. Use --'' @ cur @ '' instead.'' @ [CHR 0x0A]"

text \<open>Lines 267-417: the body of the loop, for one result of the scanner.\<close>

definition loop_body ::
  "cmdline_env \<Rightarrow> getopt_result \<Rightarrow> getopt_state \<Rightarrow> 32 word \<Rightarrow> vlc_state \<Rightarrow> step" where
  "loop_body env r g i_verbose s =
     (if i_cmd r = 0 then
        (case config_FindConfig (p_this env) (long_name env r) of
           None \<Rightarrow> short_or_unknown env r g i_verbose s
         | Some p_conf \<Rightarrow>
             (case psz_current p_conf of
                None \<Rightarrow> store_long env (long_name env r) (i_type p_conf) r i_verbose s
              | Some cur \<Rightarrow>
                  if b_strict p_conf
                  then Continue i_verbose (print_stderr [removed_message p_conf] s)
                  else
                    let s1 = print_stderr [deprecated_message (b_ignore_errors env) p_conf cur] s
                    in if \<not> b_ignore_errors env then Stop (Return (- 1)) s1
                       else
                         (case config_FindConfig (p_this env) cur of
                            None \<Rightarrow> Stop Null_dereference s1
                          | Some p_conf2 \<Rightarrow> store_long env cur (i_type p_conf2) r i_verbose s1)))
      else short_or_unknown env r g i_verbose s)"

subsection \<open>The loop and the function\<close>

text \<open>One call of \<open>getopt_long\<close> on the array \<open>ppsz_argv\<close> points to.\<close>

definition getopt_step ::
  "cmdline_env \<Rightarrow> getopt_state \<Rightarrow> vlc_state \<Rightarrow> getopt_result \<times> getopt_state \<times> vlc_state" where
  "getopt_step env g s =
     (case getopt_long (read_argv (ppsz_argv env) s) (psz_shortopts (tabs env))
             (p_longopts (tabs env)) g (optopt s) of
        (r, argv', g', oo) \<Rightarrow> (r, g', write_argv (ppsz_argv env) argv' (s\<lparr>optopt := oo\<rparr>)))"

text \<open>What is left to scan: the termination measure of the loop.\<close>

definition scan_measure :: "string list \<Rightarrow> getopt_state \<Rightarrow> nat" where
  "scan_measure argv g =
     length (nextchar g) +
     sum_list (map (\<lambda>t. Suc (length t)) (drop (if nextchar g = [] then optind g else Suc (optind g)) argv))"

text \<open>
  Lines 264-426: the loop, and the release of the private copy when the scanner
  returns \<open>-1\<close>.
\<close>

function parse_loop :: "cmdline_env \<Rightarrow> getopt_state \<Rightarrow> 32 word \<Rightarrow> vlc_state \<Rightarrow> outcome \<times> vlc_state" where
  "parse_loop env g i_verbose s =
     (case getopt_step env g s of
        (r, g', s1) \<Rightarrow>
          if i_cmd r = - 1
          then (Return 0, if b_ignore_errors env then s1\<lparr>private_argv := None\<rparr> else s1)
          else
            (case loop_body env r g' i_verbose s1 of
               Stop out s2 \<Rightarrow> (out, s2)
             | Continue v s2 \<Rightarrow> parse_loop env g' v s2))"
  by pat_completeness auto
text \<open>
  Lines 76-427, the whole function: the three arrays are allocated (the copy of
  \<open>ppsz_argv\<close> only when errors are ignored), the tables are built, the scanner is
  reset (\<open>optind = 0\<close>) and the loop runs with \<open>i_verbose = 0\<close>. When the
  tables have been written outside their arrays the behaviour of the C program is
  undefined, and the model ends there.
\<close>

definition out_of_memory :: "vlc_state \<Rightarrow> outcome \<times> vlc_state" where
  "out_of_memory s = (Return (- 1), s\<lparr>msg_err := msg_err s @ [''out of memory'']\<rparr>)"

definition config_LoadCmdLine ::
  "vlc_object_t \<Rightarrow> (string option \<Rightarrow> int) \<Rightarrow> bool list \<Rightarrow> bool \<Rightarrow> vlc_state \<Rightarrow> outcome \<times> vlc_state" where
  "config_LoadCmdLine this keyfn h ignore s =
     (case alloc h of (ok1, h1) \<Rightarrow>
        if \<not> ok1 then out_of_memory s
        else
          (case alloc h1 of (ok2, h2) \<Rightarrow>
             if \<not> ok2 then out_of_memory s
             else
               (case (if ignore then alloc h2 else (True, h2)) of (ok3, h3) \<Rightarrow>
                  if \<not> ok3 then out_of_memory s
                  else if out_of_bounds (snd (build_tables (p_list this) h3))
                  then (Out_of_bounds, if ignore then s\<lparr>private_argv := Some (caller_argv s)\<rparr> else s)
                  else
                    parse_loop
                      \<lparr>p_this = this, b_ignore_errors = ignore,
                       tabs = snd (build_tables (p_list this) h3),
                       ppsz_argv = (if ignore then Private_copy else Caller_array),
                       ConfigStringToKey = keyfn\<rparr>
                      getopt_initialize 0
                      (if ignore then s\<lparr>private_argv := Some (caller_argv s)\<rparr> else s))))"

text \<open>What follows one pass of the loop body: the function returns, or the loop goes on.\<close>

definition continue_with :: "cmdline_env \<Rightarrow> getopt_state \<Rightarrow> step \<Rightarrow> outcome \<times> vlc_state" where
  "continue_with env g' st =
     (case st of Stop out s2 \<Rightarrow> (out, s2) | Continue v2 s2 \<Rightarrow> parse_loop env g' v2 s2)"

subsection \<open>The tables, entry by entry\<close>

text \<open>
  The descriptors of the registry in the order of the traversal, the two counts of the
  spec, the counters of a module that agree with its items, and what one item adds to
  the long options and to the specification of the short options when every allocation
  succeeds.
\<close>

definition descriptors :: "module_t list \<Rightarrow> module_config_t list" where
  "descriptors ms = concat (map p_config ms)"

definition countNonHint :: "module_t list \<Rightarrow> nat" where
  "countNonHint ms = length (filter (\<lambda>d. i_type d \<noteq> CONFIG_HINT) (descriptors ms))"

definition countBool :: "module_t list \<Rightarrow> nat" where
  "countBool ms = length (filter (\<lambda>d. i_type d = CONFIG_ITEM_BOOL) (descriptors ms))"

definition module_counters_ok :: "module_t \<Rightarrow> bool" where
  "module_counters_ok m =
     (i_config_items m = length (filter (\<lambda>d. i_type d \<noteq> CONFIG_HINT) (p_config m)) \<and>
      i_bool_items m = length (filter (\<lambda>d. i_type d = CONFIG_ITEM_BOOL) (p_config m)))"

definition item_longopts :: "module_config_t \<Rightarrow> option_entry list" where
  "item_longopts d =
     (if i_type d = CONFIG_ITEM_BOOL
      then [\<lparr>opt_name = Some (psz_name d), has_arg = no_argument, opt_val = 0\<rparr>,
            \<lparr>opt_name = Some (''no'' @ psz_name d), has_arg = no_argument, opt_val = 1\<rparr>,
            \<lparr>opt_name = Some (''no-'' @ psz_name d), has_arg = no_argument, opt_val = 1\<rparr>]
      else [\<lparr>opt_name = Some (psz_name d), has_arg = required_argument, opt_val = 0\<rparr>])"

definition item_shortopts :: "module_config_t \<Rightarrow> string" where
  "item_shortopts d =
     (if i_short d = CHR 0x00 then []
      else i_short d #
        (if i_type d = CONFIG_ITEM_BOOL then []
         else if i_short d = CHR ''v'' then ''::'' else '':''))"

definition all_succeed :: "bool list \<Rightarrow> bool" where
  "all_succeed h = (\<forall>b\<in>set h. b)"

text \<open>
  What the spec says an item with a short option adds to the specification: the second
  colon only for the flag \<open>v\<close> of an integer.
\<close>

definition spec_item_shortopts :: "module_config_t \<Rightarrow> string" where
  "spec_item_shortopts d =
     i_short d #
       (if i_short d = CHR ''v'' \<and> i_type d = CONFIG_ITEM_INTEGER then ''::''
        else if i_type d \<noteq> CONFIG_ITEM_BOOL then '':'' else [])"

subsection \<open>Unknown tokens\<close>



subsection \<open>Runs of verbosity options\<close>

text \<open>The token \<open>-v\<close> with the text \<open>a\<close> attached, and the \<open>optarg\<close> the scanner makes of it.\<close>

definition attached :: "string \<Rightarrow> string option" where
  "attached a = (if a = [] then None else Some a)"

definition verbose_token :: "string \<Rightarrow> string" where
  "verbose_token a = CHR ''-'' # CHR ''v'' # a"



text \<open>The counter after each of a run of verbosity options.\<close>

fun verbose_run :: "32 word \<Rightarrow> string option list \<Rightarrow> 32 word list" where
  "verbose_run v [] = []"
| "verbose_run v (oa # oas) = verbose_step v oa # verbose_run (verbose_step v oa) oas"

subsection \<open>A registry for the examples\<close>

text \<open>
  One module: a hint, the verbosity option \<open>-v\<close>, a boolean, an integer, a string,
  two deprecated names (the replacement of the second does not exist) and a removed one.
\<close>


definition example_item :: "string \<Rightarrow> char \<Rightarrow> config_type \<Rightarrow> string option \<Rightarrow> bool \<Rightarrow> module_config_t" where
  "example_item n c ty cur strict =
     \<lparr>psz_name = n, i_short = c, i_type = ty, psz_current = cur, b_strict = strict\<rparr>"

definition example_module :: module_t where
  "example_module =
     \<lparr>i_config_items = 7, i_bool_items = 1,
      p_config =
        [example_item [] (CHR 0x00) CONFIG_HINT None False,
         example_item ''verbose'' (CHR ''v'') CONFIG_ITEM_INTEGER None False,
         example_item ''fullscreen'' (CHR ''f'') CONFIG_ITEM_BOOL None False,
         example_item ''width'' (CHR ''w'') CONFIG_ITEM_INTEGER None False,
         example_item ''intf'' (CHR ''I'') CONFIG_ITEM_STRING None False,
         example_item ''old-width'' (CHR 0x00) CONFIG_ITEM_INTEGER (Some ''width'') False,
         example_item ''old-height'' (CHR 0x00) CONFIG_ITEM_INTEGER (Some ''height'') False,
         example_item ''gone'' (CHR 0x00) CONFIG_ITEM_INTEGER (Some ''width'') True]\<rparr>"

definition example_object :: vlc_object_t where
  "example_object = \<lparr>p_list = [example_module], psz_object_name = ''vlc''\<rparr>"

definition example_state :: "string list \<Rightarrow> vlc_state" where
  "example_state a =
     \<lparr>config_store = [], stderr_out = [], msg_err = [], caller_argv = a, private_argv = None,
      optopt = 63\<rparr>"

definition example_env :: "bool \<Rightarrow> cmdline_env" where
  "example_env ignore =
     \<lparr>p_this = example_object, b_ignore_errors = ignore,
      tabs = snd (build_tables (p_list example_object) []),
      ppsz_argv = (if ignore then Private_copy else Caller_array),
      ConfigStringToKey = (\<lambda>_. 0)\<rparr>"

definition example_call :: "bool \<Rightarrow> string list \<Rightarrow> outcome \<times> vlc_state" where
  "example_call ignore a = config_LoadCmdLine example_object (\<lambda>_. 0) [] ignore (example_state a)"

text \<open>
  A registry of four booleans: \<open>fullscreen\<close>, its deprecated name \<open>fs\<close>, one
  whose name starts with a dash, and one whose name is a negation of the first.
\<close>

definition negation_object :: vlc_object_t where
  "negation_object =
     \<lparr>p_list =
        [\<lparr>i_config_items = 4, i_bool_items = 4,
          p_config =
            [example_item ''fullscreen'' (CHR ''f'') CONFIG_ITEM_BOOL None False,
             example_item ''fs'' (CHR 0x00) CONFIG_ITEM_BOOL (Some ''fullscreen'') False,
             example_item ''-x'' (CHR 0x00) CONFIG_ITEM_BOOL None False,
             example_item ''nofullscreen'' (CHR 0x00) CONFIG_ITEM_BOOL None False]\<rparr>],
      psz_object_name = ''vlc''\<rparr>"

definition negation_call :: "bool \<Rightarrow> string list \<Rightarrow> outcome \<times> vlc_state" where
  "negation_call ignore a = config_LoadCmdLine negation_object (\<lambda>_. 0) [] ignore (example_state a)"

text \<open>
  A registry in which deprecated names carry short options: \<open>old-width\<close> (\<open>-o\<close>)
  for \<open>width\<close>, the removed \<open>gone\<close> (\<open>-g\<close>), and the boolean \<open>fit\<close>, a
  deprecated name of the integer \<open>width\<close>.
\<close>

definition flagged_object :: vlc_object_t where
  "flagged_object =
     \<lparr>p_list =
        [\<lparr>i_config_items = 4, i_bool_items = 1,
          p_config =
            [example_item ''width'' (CHR ''w'') CONFIG_ITEM_INTEGER None False,
             example_item ''old-width'' (CHR ''o'') CONFIG_ITEM_INTEGER (Some ''width'') False,
             example_item ''gone'' (CHR ''g'') CONFIG_ITEM_INTEGER (Some ''width'') True,
             example_item ''fit'' (CHR 0x00) CONFIG_ITEM_BOOL (Some ''width'') False]\<rparr>],
      psz_object_name = ''vlc''\<rparr>"

definition flagged_call :: "bool \<Rightarrow> string list \<Rightarrow> outcome \<times> vlc_state" where
  "flagged_call ignore a = config_LoadCmdLine flagged_object (\<lambda>_. 0) [] ignore (example_state a)"

text \<open>A registry whose boolean \<open>help\<close> has the short option \<open>-?\<close>.\<close>

definition question_object :: vlc_object_t where
  "question_object =
     \<lparr>p_list =
        [\<lparr>i_config_items = 2, i_bool_items = 1,
          p_config =
            [example_item ''help'' (CHR 0x3F) CONFIG_ITEM_BOOL None False,
             example_item ''width'' (CHR ''w'') CONFIG_ITEM_INTEGER None False]\<rparr>],
      psz_object_name = ''vlc''\<rparr>"

definition question_call :: "bool \<Rightarrow> string list \<Rightarrow> outcome \<times> vlc_state" where
  "question_call ignore a = config_LoadCmdLine question_object (\<lambda>_. 0) [] ignore (example_state a)"

text \<open>
  A module with a boolean and a string whose short option is \<open>-v\<close>, and a module
  whose only item is that string: its specification \<open>v::\<close> and the NUL need four
  characters where line 142 allocates three.
\<close>

definition string_with_v :: module_t where
  "string_with_v =
     \<lparr>i_config_items = 2, i_bool_items = 1,
      p_config = [example_item ''fullscreen'' (CHR ''f'') CONFIG_ITEM_BOOL None False,
                  example_item ''vout'' (CHR ''v'') CONFIG_ITEM_STRING None False]\<rparr>"

definition only_v :: module_t where
  "only_v =
     \<lparr>i_config_items = 1, i_bool_items = 0,
      p_config = [example_item ''vout'' (CHR ''v'') CONFIG_ITEM_STRING None False]\<rparr>"

text \<open>A module whose boolean has a short option from \<open>0x80\<close> on.\<close>

definition high_flag :: module_t where
  "high_flag =
     \<lparr>i_config_items = 1, i_bool_items = 1,
      p_config = [example_item ''accent'' (CHR 0xE9) CONFIG_ITEM_BOOL None False]\<rparr>"

section \<open>Lemmas\<close>

subsection \<open>Termination of the loop\<close>

text \<open>Every call of the scanner that does not end the scan lowers the measure.\<close>

lemma exchange_drop: "exchange argv g = (a2, g2) \<Longrightarrow>
   drop (optind g) a2 = drop (optind g) argv \<and> length a2 = length argv \<and> optind g2 = optind g \<and> nextchar g2 = nextchar g"
  apply (clarsimp simp: exchange_def Let_def)
  apply (simp add: min_def)
  done

lemma sum_drop_le: "sum_list (map f (drop (n + k) xs)) \<le> sum_list (map (f::'a \<Rightarrow> nat) (drop n xs))"
proof -
  have "take k (drop n xs) @ drop k (drop n xs) = drop n xs"
    by (rule append_take_drop_id)
  then have "drop n xs = take k (drop n xs) @ drop (n + k) xs"
    by (simp add: add.commute)
  then have "sum_list (map f (drop n xs)) = sum_list (map f (take k (drop n xs))) + sum_list (map f (drop (n + k) xs))"
    by (metis map_append sum_list_append)
  then show ?thesis by simp
qed

lemma sum_drop_Suc: "n < length xs \<Longrightarrow> sum_list (map f (drop n xs)) = f (xs ! n) + sum_list (map (f::'a \<Rightarrow> nat) (drop (Suc n) xs))"
  by (simp add: Cons_nth_drop_Suc [symmetric])


lemma permute_keeps:
  "getopt_permute argv g = (argv2, g2)
   \<Longrightarrow> drop (optind g) argv2 = drop (optind g) argv \<and> length argv2 = length argv \<and>
       optind g2 = optind g \<and> nextchar g2 = nextchar g"
  using exchange_drop [of argv "g\<lparr>last_nonopt := min (last_nonopt g) (optind g),
                  first_nonopt := min (first_nonopt g) (optind g)\<rparr>" argv2 g2]
  by (auto simp: getopt_permute_def Let_def split: if_splits)

lemma option_token:
  assumes "\<not> nonoption t" "t \<noteq> ''--''"
  shows "drop (if is_long_token t then 2 else 1) t \<noteq> [] \<and>
         length (drop (if is_long_token t then 2 else 1) t) < Suc (length t)"
  using assms
  by (cases t; cases "tl t"; cases "tl (tl t)") (auto simp: nonoption_def is_long_token_def)

lemma advance_measure:
  assumes adv: "getopt_advance argv g = (False, a2, g1)" and nc: "nextchar g = []"
  shows "scan_measure a2 g1 < scan_measure argv g \<and> nextchar g1 \<noteq> []"
proof -
  obtain argv2 g2 where p: "getopt_permute argv g = (argv2, g2)"
    by (metis surj_pair)
  from permute_keeps [OF p]
  have inv: "drop (optind g) argv2 = drop (optind g) argv" "length argv2 = length argv"
    "optind g2 = optind g" "nextchar g2 = []"
    using nc by simp_all
  define k where "k = length (takeWhile nonoption (drop (optind g) argv2))"
  define t where "t = argv2 ! (optind g + k)"
  have sk: "getopt_skip argv2 g2 = g2\<lparr>optind := optind g + k, last_nonopt := optind g + k\<rparr>"
    by (simp add: getopt_skip_def k_def inv Let_def)
  from adv have res: "optind g + k < length argv2" "t \<noteq> ''--''" "a2 = argv2"
    "g1 = g2\<lparr>optind := optind g + k, last_nonopt := optind g + k,
         nextchar := drop (if is_long_token t then 2 else 1) t\<rparr>"
    using adv by (auto simp: getopt_advance_def p sk t_def Let_def split: if_splits prod.splits)
  have "k < length (drop (optind g) argv2)" using res(1) by simp
  then have "\<not> nonoption (drop (optind g) argv2 ! k)"
    unfolding k_def by (rule nth_length_takeWhile)
  then have nonopt: "\<not> nonoption t" using res(1) by (simp add: t_def)
  from option_token [OF nonopt res(2)]
  have tok: "drop (if is_long_token t then 2 else 1) t \<noteq> []"
    "length (drop (if is_long_token t then 2 else 1) t) < Suc (length t)" by simp_all
  have "scan_measure a2 g1 =
      length (drop (if is_long_token t then 2 else 1) t) +
      sum_list (map (\<lambda>t. Suc (length t)) (drop (Suc (optind g + k)) argv2))"
    using tok(1) by (simp add: scan_measure_def res)
  also have "\<dots> < Suc (length t) + sum_list (map (\<lambda>t. Suc (length t)) (drop (Suc (optind g + k)) argv2))"
    using tok(2) by simp
  also have "\<dots> = sum_list (map (\<lambda>t. Suc (length t)) (drop (optind g + k) argv2))"
    using sum_drop_Suc [OF res(1), of "\<lambda>t. Suc (length t)"] by (simp add: t_def)
  also have "\<dots> \<le> sum_list (map (\<lambda>t. Suc (length t)) (drop (optind g) argv2))"
    by (rule sum_drop_le)
  also have "\<dots> = scan_measure argv g"
    by (simp add: scan_measure_def nc inv)
  finally have "scan_measure a2 g1 < scan_measure argv g" .
  moreover have "nextchar g1 \<noteq> []" using tok(1) by (simp add: res)
  ultimately show ?thesis by simp
qed

lemma long_measure:
  assumes "nextchar g \<noteq> []" "getopt_long_option argv lo g oo = (r, g2, oo2)"
  shows "scan_measure argv g2 \<le> scan_measure argv g"
  using assms
  apply (auto simp: getopt_long_option_def Let_def scan_measure_def split: option.splits if_splits)
  using sum_drop_le[of "\<lambda>t. Suc (length t)" "Suc (optind g)" 1 argv] apply simp
  done

lemma short_measure:
  assumes "nextchar g \<noteq> []" "getopt_short_option argv os g oo = (r, g2, oo2)"
  shows "scan_measure argv g2 < scan_measure argv g"
  using assms
  apply (cases "nextchar g")
  apply simp
  apply (auto simp: getopt_short_option_def Let_def scan_measure_def split: if_splits)
  using sum_drop_le[of "\<lambda>t. Suc (length t)" "Suc (optind g)" 1 argv] apply simp_all
  done


lemma getopt_long_measure:
  assumes "getopt_long argv os lo g oo = (r, a2, g2, oo2)" "i_cmd r \<noteq> - 1"
  shows "scan_measure a2 g2 < scan_measure argv g"
proof (cases "nextchar g = []")
  case True
  obtain fin a1 g1 where adv: "getopt_advance argv g = (fin, a1, g1)"
    by (metis prod_cases3)
  with assms True have nf: "\<not> fin" and a: "a2 = a1"
    by (auto simp: getopt_long_def getopt_ret_def split: if_splits prod.splits)
  have m: "scan_measure a1 g1 < scan_measure argv g" "nextchar g1 \<noteq> []"
    using advance_measure [of argv g a1 g1] True adv nf by auto
  show ?thesis
  proof (cases "is_long_token (a1 ! optind g1)")
    case L: True
    with assms True adv nf obtain o3 where "getopt_long_option a1 lo g1 oo = (r, g2, o3)"
      by (auto simp: getopt_long_def getopt_ret_def split: if_splits prod.splits)
    from long_measure [OF m(2) this] m(1) a show ?thesis by simp
  next
    case S: False
    with assms True adv nf obtain o3 where "getopt_short_option a1 os g1 oo = (r, g2, o3)"
      by (auto simp: getopt_long_def getopt_ret_def split: if_splits prod.splits)
    from short_measure [OF m(2) this] m(1) a show ?thesis by simp
  qed
next
  case False
  with assms obtain o3 where "getopt_short_option argv os g oo = (r, g2, o3)" and "a2 = argv"
    by (auto simp: getopt_long_def getopt_ret_def split: if_splits prod.splits)
  with short_measure [OF False] show ?thesis by simp
qed


lemma loop_body_argv:
  "loop_body env r g v s = Continue v' s' \<Longrightarrow> \<forall>a. read_argv a s' = read_argv a s"
  by (auto simp: loop_body_def short_or_unknown_def store_long_def store_short_def Let_def
      config_Put_def print_stderr_def read_argv_def
      split: if_splits option.splits argv_ref.splits)

lemma getopt_step_measure:
  assumes "getopt_step env g s = (r, g', s1)" "i_cmd r \<noteq> - 1"
  shows "scan_measure (read_argv (ppsz_argv env) s1) g' < scan_measure (read_argv (ppsz_argv env) s) g"
proof -
  from assms(1) obtain a2 oo2 where
    gl: "getopt_long (read_argv (ppsz_argv env) s) (psz_shortopts (tabs env))
           (p_longopts (tabs env)) g (optopt s) = (r, a2, g', oo2)"
    and s1: "s1 = write_argv (ppsz_argv env) a2 (s\<lparr>optopt := oo2\<rparr>)"
    by (auto simp: getopt_step_def split: prod.splits)
  have "read_argv (ppsz_argv env) s1 = a2"
    by (simp add: s1 read_argv_def write_argv_def split: argv_ref.splits)
  with getopt_long_measure [OF gl assms(2)] show ?thesis by simp
qed

termination parse_loop
  apply (relation "measure (\<lambda>(env, g, v, s). scan_measure (read_argv (ppsz_argv env) s) g)")
   apply simp
  apply clarsimp
  apply (frule loop_body_argv)
  apply (drule sym)
  apply (drule (1) getopt_step_measure)
  apply simp
  done

declare parse_loop.simps [simp del]

subsection \<open>Unfolding and evaluation\<close>

lemmas table_defs = build_tables_def fill_module_def fill_item_def add_longopt_def add_shortopt_def
  longopt_slot_def char_index_def count_opts_def alloc_def empty_tables_def zero_option_def

lemmas scanner_defs = getopt_step_def getopt_long_def getopt_advance_def getopt_permute_def
  getopt_skip_def getopt_dashdash_def getopt_finish_def exchange_def nonoption_def is_long_token_def
  getopt_long_option_def getopt_short_option_def getopt_ret_def getopt_initialize_def
  read_argv_def write_argv_def

lemmas body_defs = loop_body_def short_or_unknown_def store_long_def store_short_def verbose_step_def
  long_name_def config_FindConfig_def config_Put_def print_stderr_def removed_message_def
  deprecated_message_def unknown_option_message_def

lemmas number_defs = strtol_def atoi_def int_of_long_def clamp_long_def strip_sign_def isspace_def
  is_hex_prefix_def digit_val_def digits_value_def

lemmas example_defs = example_call_def example_env_def example_state_def example_object_def
  negation_object_def negation_call_def flagged_object_def flagged_call_def
  question_object_def question_call_def
  example_module_def example_item_def config_LoadCmdLine_def out_of_memory_def

lemmas eval_defs = example_defs table_defs scanner_defs body_defs number_defs parse_loop.simps
  continue_with_def




subsection \<open>One pass of the loop\<close>

lemma parse_loop_step:
  "getopt_step env g s = (r, g', s') \<Longrightarrow> i_cmd r \<noteq> - 1 \<Longrightarrow>
   parse_loop env g v s = continue_with env g' (loop_body env r g' v s')"
  by (subst parse_loop.simps) (simp add: continue_with_def)

lemma parse_loop_end:
  "getopt_step env g s = (r, g', s') \<Longrightarrow> i_cmd r = - 1 \<Longrightarrow>
   parse_loop env g v s = (Return 0, if b_ignore_errors env then s'\<lparr>private_argv := None\<rparr> else s')"
  by (subst parse_loop.simps) simp

lemma getopt_step_store:
  "getopt_step env g s = (r, g', s') \<Longrightarrow>
   config_store s' = config_store s \<and> stderr_out s' = stderr_out s \<and> msg_err s' = msg_err s"
  by (auto simp: getopt_step_def write_argv_def split: prod.splits argv_ref.splits)

lemma parse_loop_induct [case_names step]:
  assumes "\<And>env g v s.
     (\<And>r g' s' w t. getopt_step env g s = (r, g', s') \<Longrightarrow> i_cmd r \<noteq> - 1 \<Longrightarrow>
        loop_body env r g' v s' = Continue w t \<Longrightarrow> P env g' w t) \<Longrightarrow> P env g v s"
  shows "P env g v s"
proof (induction env g v s rule: parse_loop.induct)
  case (1 env g i_verbose s)
  show ?case
  proof (rule assms)
    fix r g' s' w t
    assume "getopt_step env g s = (r, g', s')" "i_cmd r \<noteq> - 1" "loop_body env r g' i_verbose s' = Continue w t"
    then show "P env g' w t"
      using "1.IH" [of r "(g', s')" g' s' w t] by simp
  qed
qed



subsection \<open>The tables when every allocation succeeds\<close>

lemma alloc_succeeds: "all_succeed h \<Longrightarrow> \<exists>h'. alloc h = (True, h') \<and> all_succeed h'"
  by (cases h) (auto simp: alloc_def all_succeed_def)

lemma fill_item_tables:
  assumes "all_succeed h"
  shows "all_succeed (fst (fill_item (h, t) d)) \<and>
     p_longopts (snd (fill_item (h, t) d)) =
       p_longopts t @ (if i_type d = CONFIG_HINT then [] else item_longopts d) \<and>
     psz_shortopts (snd (fill_item (h, t) d)) =
       psz_shortopts t @ (if i_type d = CONFIG_HINT then [] else item_shortopts d)"
proof -
  from alloc_succeeds [OF assms] obtain h1 where h1: "alloc h = (True, h1)" "all_succeed h1" by blast
  from alloc_succeeds [OF h1(2)] obtain h2 where h2: "alloc h1 = (True, h2)" "all_succeed h2" by blast
  from alloc_succeeds [OF h2(2)] obtain h3 where h3: "alloc h2 = (True, h3)" "all_succeed h3" by blast
  show ?thesis
    using assms h1 h2 h3
    by (simp add: fill_item_def item_longopts_def item_shortopts_def add_longopt_def
        add_shortopt_def longopt_slot_def Let_def)
qed

lemma fill_items_tables:
  "all_succeed h \<Longrightarrow>
   all_succeed (fst (foldl fill_item (h, t) ds)) \<and>
   p_longopts (snd (foldl fill_item (h, t) ds)) =
     p_longopts t @ concat (map item_longopts (filter (\<lambda>d. i_type d \<noteq> CONFIG_HINT) ds)) \<and>
   psz_shortopts (snd (foldl fill_item (h, t) ds)) =
     psz_shortopts t @ concat (map item_shortopts (filter (\<lambda>d. i_type d \<noteq> CONFIG_HINT) ds))"
proof (induction ds arbitrary: h t)
  case Nil
  then show ?case by simp
next
  case (Cons d ds)
  obtain h' t' where f: "fill_item (h, t) d = (h', t')" by (metis surj_pair)
  with fill_item_tables [OF Cons.prems, of t d]
  have "all_succeed h'"
    "p_longopts t' = p_longopts t @ (if i_type d = CONFIG_HINT then [] else item_longopts d)"
    "psz_shortopts t' = psz_shortopts t @ (if i_type d = CONFIG_HINT then [] else item_shortopts d)"
    by simp_all
  with Cons.IH [of h' t'] f show ?case by simp
qed

lemma fill_modules_tables:
  "all_succeed h \<Longrightarrow> \<forall>m\<in>set ms. module_counters_ok m \<Longrightarrow>
   all_succeed (fst (foldl fill_module (h, t) ms)) \<and>
   p_longopts (snd (foldl fill_module (h, t) ms)) =
     p_longopts t @ concat (map item_longopts (filter (\<lambda>d. i_type d \<noteq> CONFIG_HINT) (descriptors ms))) \<and>
   psz_shortopts (snd (foldl fill_module (h, t) ms)) =
     psz_shortopts t @ concat (map item_shortopts (filter (\<lambda>d. i_type d \<noteq> CONFIG_HINT) (descriptors ms)))"
proof (induction ms arbitrary: h t)
  case Nil
  then show ?case by (simp add: descriptors_def)
next
  case (Cons m ms)
  obtain h' t' where f: "fill_module (h, t) m = (h', t')" by (metis surj_pair)
  have ok: "module_counters_ok m" using Cons.prems(2) by simp
  have "all_succeed h' \<and>
    p_longopts t' = p_longopts t @ concat (map item_longopts (filter (\<lambda>d. i_type d \<noteq> CONFIG_HINT) (p_config m))) \<and>
    psz_shortopts t' = psz_shortopts t @ concat (map item_shortopts (filter (\<lambda>d. i_type d \<noteq> CONFIG_HINT) (p_config m)))"
  proof (cases "i_config_items m = 0")
    case True
    with ok have "filter (\<lambda>d. i_type d \<noteq> CONFIG_HINT) (p_config m) = []"
      by (simp add: module_counters_ok_def)
    with True f Cons.prems(1) show ?thesis by (simp add: fill_module_def)
  next
    case False
    with f fill_items_tables [OF Cons.prems(1), of t "p_config m"] show ?thesis
      by (simp add: fill_module_def)
  qed
  with Cons.IH [of h' t'] Cons.prems(2) f show ?case by (simp add: descriptors_def)
qed

lemma build_tables_eq:
  assumes "all_succeed h" "\<forall>m\<in>set ms. module_counters_ok m"
  shows "p_longopts (snd (build_tables ms h)) =
           concat (map item_longopts (filter (\<lambda>d. i_type d \<noteq> CONFIG_HINT) (descriptors ms))) @ [zero_option]"
    and "psz_shortopts (snd (build_tables ms h)) =
           concat (map item_shortopts (filter (\<lambda>d. i_type d \<noteq> CONFIG_HINT) (descriptors ms)))"
  using fill_modules_tables [OF assms, of "empty_tables (count_opts ms)"]
  by (auto simp: build_tables_def empty_tables_def split: prod.splits)

lemma length_item_longopts:
  "length (concat (map item_longopts ds)) =
     length ds + 2 * length (filter (\<lambda>d. i_type d = CONFIG_ITEM_BOOL) ds)"
  by (induction ds) (simp_all add: item_longopts_def)

lemma count_opts_eq:
  "\<forall>m\<in>set ms. module_counters_ok m \<Longrightarrow> count_opts ms = countNonHint ms + 2 * countBool ms"
proof -
  have gen: "\<And>n. \<forall>m\<in>set ms. module_counters_ok m \<Longrightarrow>
     foldl (\<lambda>k p_parser. k + (i_config_items p_parser + 2 * i_bool_items p_parser)) n ms =
       n + countNonHint ms + 2 * countBool ms"
  proof (induction ms)
    case Nil
    then show ?case by (simp add: countNonHint_def countBool_def descriptors_def)
  next
    case (Cons m ms)
    then show ?case
      by (simp add: countNonHint_def countBool_def descriptors_def module_counters_ok_def)
  qed
  assume "\<forall>m\<in>set ms. module_counters_ok m"
  from gen [OF this, of 0] show ?thesis by (simp add: count_opts_def)
qed

lemma entry_in_table:
  assumes "all_succeed h" and "\<forall>m\<in>set ms. module_counters_ok m"
    and "d \<in> set (descriptors ms)" and "i_type d \<noteq> CONFIG_HINT"
  shows "set (item_longopts d) \<subseteq> set (p_longopts (snd (build_tables ms h)))"
  using assms(3,4) by (auto simp: build_tables_eq(1) [OF assms(1,2)])

subsection \<open>The scanner on verbosity options\<close>

lemma getopt_long_verbose_token:
  assumes "nextchar g = []" "first_nonopt g = last_nonopt g" "last_nonopt g \<le> optind g"
    "optind g = length pre" "pre \<noteq> []"
    "dropWhile (\<lambda>x. x \<noteq> CHR ''v'') os = CHR ''v'' # CHR '':'' # CHR '':'' # rest"
  shows "getopt_long (pre @ (CHR ''-'' # CHR ''v'' # a) # post) os lo g oo =
     ((getopt_ret (of_char CHR ''v''))\<lparr>optarg := (if a = [] then None else Some a)\<rparr>,
      pre @ (CHR ''-'' # CHR ''v'' # a) # post,
      \<lparr>optind = Suc (length pre), nextchar = [], first_nonopt = length pre, last_nonopt = length pre\<rparr>,
      oo)"
proof -
  have p: "getopt_permute (pre @ (CHR ''-'' # CHR ''v'' # a) # post) g =
             (pre @ (CHR ''-'' # CHR ''v'' # a) # post, g\<lparr>first_nonopt := length pre\<rparr>)"
    using assms(1-4) by (cases g) (auto simp: getopt_permute_def Let_def min_def)
  have k: "getopt_skip (pre @ (CHR ''-'' # CHR ''v'' # a) # post) (g\<lparr>first_nonopt := length pre\<rparr>) =
             g\<lparr>first_nonopt := length pre, last_nonopt := length pre\<rparr>"
    using assms(4) by (cases g) (simp add: getopt_skip_def nonoption_def)
  have adv: "getopt_advance (pre @ (CHR ''-'' # CHR ''v'' # a) # post) g =
      (False, pre @ (CHR ''-'' # CHR ''v'' # a) # post,
       g\<lparr>first_nonopt := length pre, last_nonopt := length pre, nextchar := CHR ''v'' # a\<rparr>)"
    using assms(4) by (simp add: getopt_advance_def p k is_long_token_def)
  show ?thesis
    using assms(1,4,5,6)
    apply (simp add: getopt_long_def adv is_long_token_def getopt_short_option_def Let_def)
    apply (cases g)
    apply (simp add: getopt_ret_def)
    done
qed

lemma getopt_long_verbose:
  assumes "nextchar g = []" "first_nonopt g = last_nonopt g" "last_nonopt g \<le> optind g"
    "optind g = length pre" "pre \<noteq> []"
    "dropWhile (\<lambda>x. x \<noteq> CHR ''v'') os = CHR ''v'' # CHR '':'' # CHR '':'' # rest"
  shows "getopt_long (pre @ verbose_token a # post) os lo g oo =
     ((getopt_ret (of_char CHR ''v''))\<lparr>optarg := attached a\<rparr>,
      pre @ verbose_token a # post,
      \<lparr>optind = Suc (length pre), nextchar = [], first_nonopt = length pre, last_nonopt = length pre\<rparr>,
      oo)"
  unfolding verbose_token_def attached_def
  by (rule getopt_long_verbose_token [OF assms])

lemma getopt_long_at_end:
  assumes "nextchar g = []" "first_nonopt g = last_nonopt g" "last_nonopt g \<le> optind g"
    "optind g = length pre" "pre \<noteq> []"
  shows "\<exists>g'. getopt_long pre os lo g oo = (getopt_ret (- 1), pre, g', oo)"
proof -
  have p: "getopt_permute pre g = (pre, g\<lparr>first_nonopt := length pre\<rparr>)"
    using assms(1-4) by (cases g) (auto simp: getopt_permute_def Let_def min_def)
  have k: "getopt_skip pre (g\<lparr>first_nonopt := length pre\<rparr>) =
             g\<lparr>first_nonopt := length pre, last_nonopt := length pre\<rparr>"
    using assms(4) by (cases g) (simp add: getopt_skip_def)
  show ?thesis
    using assms(1,4,5)
    by (simp add: getopt_long_def getopt_advance_def p k getopt_finish_def)
qed


lemma verbose_pass:
  assumes "getopt_step env g s = (r, g', s')" and "i_cmd r = of_char CHR ''v''"
    and "pp_shortopts (tabs env) (of_char CHR ''v'') = Some p" and "i_type p = CONFIG_ITEM_INTEGER"
  shows "parse_loop env g v s =
           parse_loop env g' (verbose_step v (optarg r))
             (config_Put (PutInt (psz_name p) (sint (verbose_step v (optarg r)))) s')"
proof -
  have "loop_body env r g' v s' =
      Continue (verbose_step v (optarg r))
        (config_Put (PutInt (psz_name p) (sint (verbose_step v (optarg r)))) s')"
    using assms(2-4) by (simp add: loop_body_def short_or_unknown_def store_short_def Let_def)
  with assms(1,2) show ?thesis by (simp add: parse_loop_step continue_with_def)
qed

lemma read_write_argv: "read_argv a (write_argv a x s) = x"
  by (simp add: read_argv_def write_argv_def split: argv_ref.splits)

lemma verbose_scan:
  assumes os: "dropWhile (\<lambda>x. x \<noteq> CHR ''v'') (psz_shortopts (tabs env)) =
                 CHR ''v'' # CHR '':'' # CHR '':'' # rest"
    and p: "pp_shortopts (tabs env) (of_char CHR ''v'') = Some p" "i_type p = CONFIG_ITEM_INTEGER"
  shows "nextchar g = [] \<Longrightarrow> first_nonopt g = last_nonopt g \<Longrightarrow> last_nonopt g \<le> optind g \<Longrightarrow>
     optind g = length pre \<Longrightarrow> pre \<noteq> [] \<Longrightarrow>
     read_argv (ppsz_argv env) s = pre @ map verbose_token args \<Longrightarrow>
     fst (parse_loop env g v s) = Return 0 \<and>
     config_store (snd (parse_loop env g v s)) =
       config_store s @ map (\<lambda>w. PutInt (psz_name p) (sint w)) (verbose_run v (map attached args)) \<and>
     stderr_out (snd (parse_loop env g v s)) = stderr_out s"
proof (induction args arbitrary: g v s pre)
  case Nil
  from getopt_long_at_end [OF Nil(1-5), of "psz_shortopts (tabs env)" "p_longopts (tabs env)" "optopt s"]
  obtain g' where "getopt_long pre (psz_shortopts (tabs env)) (p_longopts (tabs env)) g (optopt s) =
      (getopt_ret (- 1), pre, g', optopt s)" by blast
  with Nil(6) have "getopt_step env g s = (getopt_ret (- 1), g', write_argv (ppsz_argv env) pre (s\<lparr>optopt := optopt s\<rparr>))"
    by (simp add: getopt_step_def)
  from parse_loop_end [OF this] show ?case
    by (simp add: getopt_ret_def write_argv_def split: argv_ref.splits)
next
  case (Cons a args)
  let ?g' = "\<lparr>optind = Suc (length pre), nextchar = [], first_nonopt = length pre, last_nonopt = length pre\<rparr>"
  let ?r = "(getopt_ret (of_char CHR ''v''))\<lparr>optarg := attached a\<rparr>"
  let ?s' = "write_argv (ppsz_argv env) (pre @ verbose_token a # map verbose_token args) (s\<lparr>optopt := optopt s\<rparr>)"
  have st: "getopt_step env g s = (?r, ?g', ?s')"
    using Cons.prems(6) getopt_long_verbose [OF Cons.prems(1-5) os, of a "map verbose_token args"
        "p_longopts (tabs env)" "optopt s"]
    by (simp add: getopt_step_def)
  have ic: "i_cmd ?r = of_char CHR ''v''" by (simp add: getopt_ret_def)
  let ?v = "verbose_step v (attached a)"
  let ?t = "config_Put (PutInt (psz_name p) (sint ?v)) ?s'"
  have pl: "parse_loop env g v s = parse_loop env ?g' ?v ?t"
    using verbose_pass [OF st ic p, of v] by (simp add: getopt_ret_def)
  have rd: "read_argv (ppsz_argv env) ?t = (pre @ [verbose_token a]) @ map verbose_token args"
    by (simp add: config_Put_def read_argv_def write_argv_def split: argv_ref.splits)
  have "fst (parse_loop env ?g' ?v ?t) = Return 0 \<and>
     config_store (snd (parse_loop env ?g' ?v ?t)) =
       config_store ?t @ map (\<lambda>w. PutInt (psz_name p) (sint w)) (verbose_run ?v (map attached args)) \<and>
     stderr_out (snd (parse_loop env ?g' ?v ?t)) = stderr_out ?t"
    by (rule Cons.IH [OF _ _ _ _ _ rd]) simp_all
  then show ?case
    by (simp add: pl config_Put_def write_argv_def split: argv_ref.splits)
qed

lemma example_in_bounds: "\<not> out_of_bounds (snd (build_tables (p_list example_object) []))"
  by (simp add: example_object_def example_module_def example_item_def table_defs)

lemma example_call_loop:
  "example_call ignore a =
     parse_loop (example_env ignore) getopt_initialize 0
       (if ignore then (example_state a)\<lparr>private_argv := Some a\<rparr> else example_state a)"
  by (simp add: example_call_def config_LoadCmdLine_def alloc_def example_env_def example_state_def
      example_in_bounds)

subsection \<open>The scanner on unknown tokens\<close>


lemma getopt_advance_option:
  assumes "nextchar g = []" "optind g < length argv" "\<not> nonoption (argv ! optind g)"
    "argv ! optind g \<noteq> ''--''"
  shows "\<exists>argv2 g2. getopt_advance argv g =
           (False, argv2,
            g2\<lparr>nextchar := drop (if is_long_token (argv ! optind g) then 2 else 1) (argv ! optind g)\<rparr>) \<and>
         optind g2 = optind g \<and> argv2 ! optind g = argv ! optind g \<and> length argv2 = length argv"
proof -
  obtain argv2 g2 where p: "getopt_permute argv g = (argv2, g2)" by (metis surj_pair)
  from permute_keeps [OF p]
  have inv: "drop (optind g) argv2 = drop (optind g) argv" "length argv2 = length argv"
    "optind g2 = optind g" by simp_all
  have "drop (optind g) argv2 ! 0 = drop (optind g) argv ! 0" using inv(1) by simp
  then have tok: "argv2 ! optind g = argv ! optind g" using assms(2) inv(2) by simp
  have "drop (optind g) argv2 = argv2 ! optind g # drop (Suc (optind g)) argv2"
    using assms(2) inv(2) by (simp add: Cons_nth_drop_Suc)
  then have "takeWhile nonoption (drop (optind g) argv2) = []"
    using assms(3) tok by simp
  then have sk: "getopt_skip argv2 g2 = g2\<lparr>optind := optind g, last_nonopt := optind g\<rparr>"
    by (simp add: getopt_skip_def inv(3))
  have "getopt_advance argv g =
     (False, argv2, (g2\<lparr>optind := optind g, last_nonopt := optind g\<rparr>)
        \<lparr>nextchar := drop (if is_long_token (argv ! optind g) then 2 else 1) (argv ! optind g)\<rparr>)"
    using assms(2,4) by (simp add: getopt_advance_def p sk tok inv(2))
  then show ?thesis using tok inv(2) by (intro exI [of _ argv2] exI [of _ "g2\<lparr>optind := optind g, last_nonopt := optind g\<rparr>"]) simp
qed






subsection \<open>Long options and the names of the table\<close>

text \<open>
  What the scanner hands over for a long option is an entry of the table and its
  value; a name that the table holds once stands for one entry and one descriptor.
\<close>

lemma lookup_long_Some:
  "lookup_long nm es k = Some i \<Longrightarrow> k \<le> i \<and> i - k < length es \<and> opt_name (es ! (i - k)) = Some nm"
proof (induction es arbitrary: k)
  case Nil
  then show ?case by simp
next
  case (Cons e es)
  show ?case
  proof (cases "opt_name e")
    case None
    with Cons.prems show ?thesis by simp
  next
    case (Some n)
    show ?thesis
    proof (cases "n = nm")
      case True
      with Some Cons.prems show ?thesis by simp
    next
      case False
      with Some Cons.prems have "lookup_long nm es (Suc k) = Some i" by simp
      from Cons.IH [OF this] have "Suc k \<le> i" "i - Suc k < length es"
        "opt_name (es ! (i - Suc k)) = Some nm" by simp_all
      then show ?thesis by (simp add: Suc_diff_le nth_Cons')
    qed
  qed
qed

lemma lookup_long_finds:
  "\<exists>e\<in>set es. opt_name e = Some nm \<Longrightarrow> \<forall>e\<in>set es. opt_name e \<noteq> None \<Longrightarrow>
   \<exists>i. lookup_long nm (es @ rest) k = Some i"
proof (induction es arbitrary: k)
  case Nil
  then show ?case by simp
next
  case (Cons e es)
  then show ?case by (cases "opt_name e") auto
qed

lemma getopt_step_long:
  assumes "getopt_step env g s = (r, g', s')" and "i_cmd r = 0"
    and "CHR 0x00 \<notin> set (psz_shortopts (tabs env))"
  shows "i_index r < length (p_longopts (tabs env)) \<and>
         flag r = opt_val (p_longopts (tabs env) ! i_index r)"
proof -
  let ?argv = "read_argv (ppsz_argv env) s"
  let ?os = "psz_shortopts (tabs env)"
  let ?lo = "p_longopts (tabs env)"
  from assms(1) obtain argv2 oo' where
    gl: "getopt_long ?argv ?os ?lo g (optopt s) = (r, argv2, g', oo')"
    by (auto simp: getopt_step_def split: prod.splits)
  have short: "getopt_short_option a ?os g1 oo = (r, g2, oo2) \<Longrightarrow> False" for a g1 oo g2 oo2
  proof -
    assume so: "getopt_short_option a ?os g1 oo = (r, g2, oo2)"
    show False
    proof (cases "nextchar g1")
      case Nil
      with so assms(2) show False by (auto simp: getopt_short_option_def getopt_ret_def)
    next
      case (Cons c nc)
      have z: "(of_char c :: int) = 0 \<Longrightarrow> c = CHR 0x00"
      proof -
        assume "(of_char c :: int) = 0"
        then have "(of_char c :: int) = of_char (CHR 0x00)" by simp
        then show "c = CHR 0x00" by (simp only: of_char_eq_iff)
      qed
      show False
      proof (cases "c = CHR 0x00")
        case True
        then have "dropWhile (\<lambda>x. x \<noteq> c) ?os = []"
          using assms(3) by (auto simp: dropWhile_eq_Nil_conv)
        with so Cons assms(2) show False
          by (auto simp: getopt_short_option_def getopt_ret_def Let_def)
      next
        case False
        then have "(of_char c :: int) \<noteq> 0" using z by blast
        with so Cons assms(2) show False
          by (auto simp: getopt_short_option_def getopt_ret_def Let_def split: if_splits)
      qed
    qed
  qed
  have long: "getopt_long_option a ?lo g1 oo = (r, g2, oo2) \<Longrightarrow>
      i_index r < length ?lo \<and> flag r = opt_val (?lo ! i_index r)" for a g1 oo g2 oo2
  proof -
    assume lo: "getopt_long_option a ?lo g1 oo = (r, g2, oo2)"
    let ?nm = "takeWhile (\<lambda>c. c \<noteq> CHR ''='') (nextchar g1)"
    show ?thesis
    proof (cases "lookup_long ?nm ?lo 0")
      case None
      with lo assms(2) show ?thesis by (auto simp: getopt_long_option_def getopt_ret_def Let_def)
    next
      case (Some i)
      from lookup_long_Some [OF Some] have i: "i < length ?lo" by simp
      from lo Some assms(2) have "i_index r = i \<and> flag r = opt_val (?lo ! i)"
        by (auto simp: getopt_long_option_def getopt_ret_def Let_def split: if_splits)
      with i show ?thesis by simp
    qed
  qed
  from gl assms(2) show ?thesis
    by (auto simp: getopt_long_def getopt_ret_def split: if_splits prod.splits dest: short long)
qed


lemma shortopts_no_nul:
  assumes "all_succeed h" "\<forall>m\<in>set ms. module_counters_ok m"
  shows "CHR 0x00 \<notin> set (psz_shortopts (snd (build_tables ms h)))"
  by (auto simp: build_tables_eq(2) [OF assms] item_shortopts_def split: if_splits)

lemma entry_unique:
  assumes "length (filter (\<lambda>x. opt_name x = Some nm) tab) = 1" "e \<in> set tab"
    "opt_name e = Some nm" "i < length tab" "opt_name (tab ! i) = Some nm"
  shows "tab ! i = e"
proof -
  from assms(1) obtain y where y: "filter (\<lambda>x. opt_name x = Some nm) tab = [y]"
    by (cases "filter (\<lambda>x. opt_name x = Some nm) tab") auto
  have "e \<in> set (filter (\<lambda>x. opt_name x = Some nm) tab)" using assms(2,3) by simp
  then have "e = y" by (simp only: y) simp
  moreover have "tab ! i \<in> set (filter (\<lambda>x. opt_name x = Some nm) tab)" using assms(4,5) by simp
  then have "tab ! i = y" by (simp only: y) simp
  ultimately show ?thesis by simp
qed

lemma names_counted:
  "length (filter (\<lambda>p. psz_name p = X) ds) \<le>
   length (filter (\<lambda>e. opt_name e = Some X) (concat (map item_longopts ds)))"
  by (induction ds) (auto simp: item_longopts_def)

lemma find_single: "filter P ds = [d] \<Longrightarrow> find P ds = Some d"
  by (induction ds) (auto split: if_splits)

lemma single_descriptor:
  assumes "length (filter (\<lambda>e. opt_name e = Some (psz_name d)) (concat (map item_longopts ds) @ rest)) = 1"
    and "d \<in> set ds"
  shows "filter (\<lambda>p. psz_name p = psz_name d) ds = [d]"
proof -
  let ?f = "filter (\<lambda>p. psz_name p = psz_name d) ds"
  have "length ?f \<le> length (filter (\<lambda>e. opt_name e = Some (psz_name d)) (concat (map item_longopts ds)))"
    by (rule names_counted)
  also have "\<dots> \<le> 1" using assms(1) by simp
  finally have le: "length ?f \<le> 1" .
  have "d \<in> set ?f" using assms(2) by simp
  with le show ?thesis by (cases ?f) auto
qed

lemma getopt_long_flag_token:
  assumes "nextchar g = []" "optind g < length argv" "argv ! optind g = CHR ''-'' # CHR ''-'' # nm"
    "nm \<noteq> []" "CHR ''='' \<notin> set nm" "lookup_long nm lo 0 = Some i" "has_arg (lo ! i) = no_argument"
    "getopt_long argv os lo g oo = (r, argv2, g', oo')"
  shows "r = \<lparr>i_cmd = 0, i_index = i, flag = opt_val (lo ! i), optarg = None\<rparr> \<and>
         optind g' = Suc (optind g) \<and> nextchar g' = []"
proof -
  have t: "\<not> nonoption (argv ! optind g)" "argv ! optind g \<noteq> ''--''" "is_long_token (argv ! optind g)"
    using assms(3,4) by (simp_all add: nonoption_def is_long_token_def)
  from getopt_advance_option [OF assms(1,2) t(1,2)] obtain argv3 g2 where
    adv: "getopt_advance argv g = (False, argv3, g2\<lparr>nextchar := nm\<rparr>)"
    and inv: "optind g2 = optind g" "argv3 ! optind g = argv ! optind g" "length argv3 = length argv"
    using t(3) assms(3) by auto
  have ne: "argv \<noteq> []" using assms(2) by auto
  have all: "\<forall>x\<in>set nm. x \<noteq> CHR ''=''" using assms(5) by blast
  have tw: "takeWhile (\<lambda>c. c \<noteq> CHR ''='') nm = nm"
    using all by (simp only: takeWhile_eq_all_conv)
  have dw: "dropWhile (\<lambda>c. c \<noteq> CHR ''='') nm = []"
    using all by (simp only: dropWhile_eq_Nil_conv)
  have lo: "getopt_long_option argv3 lo (g2\<lparr>nextchar := nm\<rparr>) oo =
      (\<lparr>i_cmd = 0, i_index = i, flag = opt_val (lo ! i), optarg = None\<rparr>,
       g2\<lparr>optind := Suc (optind g), nextchar := []\<rparr>, oo)"
    using assms(6,7) inv(1) by (simp add: getopt_long_option_def Let_def tw dw)
  have "getopt_long argv os lo g oo =
      (\<lparr>i_cmd = 0, i_index = i, flag = opt_val (lo ! i), optarg = None\<rparr>, argv3,
       g2\<lparr>optind := Suc (optind g), nextchar := []\<rparr>, oo)"
    using assms(1) ne inv t(3) by (simp add: getopt_long_def adv lo)
  with assms(8) show ?thesis by auto
qed

subsection \<open>The caller's array\<close>

lemma getopt_step_caller:
  "ppsz_argv env = Private_copy \<Longrightarrow> getopt_step env g s = (r, g', s') \<Longrightarrow>
   caller_argv s' = caller_argv s"
  by (auto simp: getopt_step_def write_argv_def split: prod.splits)

lemma loop_body_caller:
  "loop_body env r g v s = Continue w t \<or> loop_body env r g v s = Stop out t \<Longrightarrow>
   caller_argv t = caller_argv s"
  by (auto simp: loop_body_def short_or_unknown_def store_long_def store_short_def Let_def
      config_Put_def print_stderr_def split: if_splits option.splits)

lemma parse_loop_caller:
  "ppsz_argv env = Private_copy \<Longrightarrow> caller_argv (snd (parse_loop env g v s)) = caller_argv s"
proof (induction env g v s rule: parse_loop_induct)
  case (step env g v s)
  obtain r g' s' where st: "getopt_step env g s = (r, g', s')"
    by (metis prod_cases3)
  note c = getopt_step_caller [OF step.prems st]
  show ?case
  proof (cases "i_cmd r = - 1")
    case True
    with st c show ?thesis by (simp add: parse_loop_end)
  next
    case False
    show ?thesis
    proof (cases "loop_body env r g' v s'")
      case (Continue w t)
      with step.IH [OF st False Continue step.prems] st False c loop_body_caller [of env r g' v s' w t]
      show ?thesis by (simp add: parse_loop_step continue_with_def)
    next
      case (Stop out t)
      with st False c loop_body_caller [of env r g' v s' _ t out] show ?thesis
        by (simp add: parse_loop_step continue_with_def)
    qed
  qed
qed

lemma exchange_mset: "mset (fst (exchange argv g)) = mset argv"
proof -
  let ?pre = "take (optind g) argv"
  let ?sc = "drop (first_nonopt g) ?pre"
  let ?k = "last_nonopt g - first_nonopt g"
  have "mset (take (first_nonopt g) ?pre @ drop ?k ?sc @ take ?k ?sc @ drop (optind g) argv) =
        mset (take (first_nonopt g) ?pre) + (mset (take ?k ?sc) + mset (drop ?k ?sc)) + mset (drop (optind g) argv)"
    by simp
  also have "mset (take ?k ?sc) + mset (drop ?k ?sc) = mset ?sc"
    by (metis append_take_drop_id mset_append)
  also have "mset (take (first_nonopt g) ?pre) + mset ?sc = mset ?pre"
    by (metis append_take_drop_id mset_append)
  also have "mset ?pre + mset (drop (optind g) argv) = mset argv"
    by (metis append_take_drop_id mset_append)
  finally show ?thesis by (simp add: exchange_def Let_def)
qed

lemma getopt_permute_mset: "mset (fst (getopt_permute argv g)) = mset argv"
  by (simp add: getopt_permute_def Let_def exchange_mset)

lemma getopt_dashdash_mset: "mset (fst (getopt_dashdash argv g)) = mset argv"
  by (simp add: getopt_dashdash_def Let_def exchange_mset split: prod.splits if_splits)
    (metis exchange_mset fst_conv)

lemma getopt_advance_mset: "getopt_advance argv g = (fin, a2, g2) \<Longrightarrow> mset a2 = mset argv"
  using getopt_permute_mset [of argv g] getopt_dashdash_mset
  by (auto simp: getopt_advance_def Let_def split: prod.splits if_splits)
    (metis fst_conv)+

lemma getopt_long_mset: "getopt_long argv os lo g oo = (r, a2, g2, o2) \<Longrightarrow> mset a2 = mset argv"
  by (auto simp: getopt_long_def split: if_splits prod.splits dest: getopt_advance_mset)

lemma getopt_step_mset:
  "getopt_step env g s = (r, g', s') \<Longrightarrow> mset (caller_argv s') = mset (caller_argv s)"
  by (auto simp: getopt_step_def write_argv_def read_argv_def split: prod.splits argv_ref.splits
      dest: getopt_long_mset)

lemma parse_loop_mset:
  "mset (caller_argv (snd (parse_loop env g v s))) = mset (caller_argv s)"
proof (induction env g v s rule: parse_loop_induct)
  case (step env g v s)
  obtain r g' s' where st: "getopt_step env g s = (r, g', s')"
    by (metis prod_cases3)
  note c = getopt_step_mset [OF st]
  show ?case
  proof (cases "i_cmd r = - 1")
    case True
    with st c show ?thesis by (simp add: parse_loop_end)
  next
    case False
    show ?thesis
    proof (cases "loop_body env r g' v s'")
      case (Continue w t)
      with step.IH [OF st False Continue] st False c loop_body_caller [of env r g' v s' w t]
      show ?thesis by (simp add: parse_loop_step continue_with_def)
    next
      case (Stop out t)
      with st False c loop_body_caller [of env r g' v s' _ t out] show ?thesis
        by (simp add: parse_loop_step continue_with_def)
    qed
  qed
qed

lemma loop_body_counter:
  "loop_body env r g v s = Continue w t \<Longrightarrow> i_cmd r \<noteq> of_char CHR ''v'' \<Longrightarrow> w = v"
  by (auto simp: loop_body_def short_or_unknown_def store_long_def store_short_def Let_def
      split: if_splits option.splits)

subsection \<open>Numbers\<close>

lemma strtol_no_conversion: "no_conversion a \<Longrightarrow> strtol a 0 = 0"
proof -
  assume nc: "no_conversion a"
  obtain neg t where st: "strip_sign (dropWhile isspace a) = (neg, t)"
    by (metis surj_pair)
  have zero: "digit_val CHR ''0'' = Some 0" by (simp add: digit_val_def)
  show ?thesis
  proof (cases t)
    case Nil
    with st show ?thesis
      by (simp add: strtol_def is_hex_prefix_def digits_value_def clamp_long_def)
  next
    case (Cons c cs)
    with nc st have d: "digit_val c = None \<or> (\<exists>d. digit_val c = Some d \<and> 10 \<le> d)"
      by (auto simp: no_conversion_def split: option.splits)
    with zero have c0: "c \<noteq> CHR ''0''" by auto
    from d have dg: "digits_of 10 (c # cs) = []" by auto
    from c0 have nh: "\<not> is_hex_prefix (c # cs)"
      by (auto simp: is_hex_prefix_def split: list.splits)
    from st Cons nh c0 dg show ?thesis
      by (simp add: strtol_def digits_value_def clamp_long_def)
  qed
qed

lemma strtol_examples:
  "int_of_long (strtol ''0x10'' 0) = 16" "int_of_long (strtol ''010'' 0) = 8"
  "int_of_long (strtol ''-42'' 0) = - 42" "int_of_long (strtol ''notanumber'' 0) = 0"
  "no_conversion ''notanumber''"
  by (simp_all add: number_defs no_conversion_def)

section \<open>The claims\<close>

text \<open>
  The claims about one option are stated for any pass of the loop: \<open>getopt_step\<close>
  has returned the result \<open>r\<close> in the state \<open>s'\<close>, from the scan position
  \<open>g\<close> and the state \<open>s\<close> that the tokens before have led to. The call as a
  whole is \<open>parse_loop\<close> from \<open>getopt_initialize\<close>; what a pass returns, the call
  returns.
\<close>

text \<open>
  C1, as the spec states it, fails in three ways. The test of lines 280-308 is made for
  a long option only: the short option \<open>-o\<close> of the deprecated \<open>old-width\<close> is
  stored under \<open>old-width\<close> and the strict call returns 0. When errors are ignored
  the value is stored only if the switch of lines 310-334 can run: \<open>--fit\<close>, a
  boolean name for the integer \<open>width\<close>, has no argument for \<open>strtol\<close>, and
  \<open>--old-height\<close> names a replacement that is not in the registry.
\<close>

theorem deprecated_option_counterexample:
  "flagged_call False [''vlc'', ''-o5''] =
     (Return 0, (example_state [''vlc'', ''-o5''])\<lparr>config_store := [PutInt ''old-width'' 5]\<rparr>) \<and>
   config_FindConfig flagged_object ''old-width'' =
     Some (example_item ''old-width'' (CHR ''o'') CONFIG_ITEM_INTEGER (Some ''width'') False) \<and>
   fst (flagged_call True [''vlc'', ''--fit'']) = Null_dereference \<and>
   config_store (snd (flagged_call True [''vlc'', ''--fit''])) = [] \<and>
   fst (example_call True [''vlc'', ''--old-height=3'']) = Null_dereference \<and>
   config_store (snd (example_call True [''vlc'', ''--old-height=3''])) = []"
  by (simp add: eval_defs)

text \<open>
  C1 amended: a long option whose descriptor names a replacement and is not removed. In
  strict mode the call prints the error and returns \<open>-1\<close>; the store is the one the
  option found, so neither this option nor a later one is written. When errors are
  ignored the warning is printed and, when \<open>config_FindConfig\<close> finds the
  replacement, the value is stored under the replacement's name by the kind of the
  replacement's descriptor and the loop goes on: the argument for a string, its
  \<open>strtol\<close> for an integer, its text for \<open>atof\<close> for a float, its key for a
  key, and the negation of the entry's flag for a boolean. The integer and the float
  need the option to carry an argument.
\<close>

theorem deprecated_option:
  assumes "getopt_step env g s = (r, g', s')" and "i_cmd r = 0"
    and "config_FindConfig (p_this env) (long_name env r) = Some p_conf"
    and "psz_current p_conf = Some cur" and "\<not> b_strict p_conf"
  shows "(\<not> b_ignore_errors env \<longrightarrow>
            parse_loop env g v s =
              (Return (- 1), print_stderr [deprecated_message False p_conf cur] s') \<and>
            config_store (snd (parse_loop env g v s)) = config_store s) \<and>
         (b_ignore_errors env \<longrightarrow>
            (\<forall>p_new. config_FindConfig (p_this env) cur = Some p_new \<longrightarrow>
               (i_type p_new \<in> {CONFIG_ITEM_STRING, CONFIG_ITEM_PASSWORD, CONFIG_ITEM_FILE,
                                 CONFIG_ITEM_DIRECTORY, CONFIG_ITEM_MODULE, CONFIG_ITEM_MODULE_LIST,
                                 CONFIG_ITEM_MODULE_LIST_CAT, CONFIG_ITEM_MODULE_CAT} \<longrightarrow>
                  parse_loop env g v s =
                    parse_loop env g' v
                      (config_Put (PutPsz cur (optarg r))
                         (print_stderr [deprecated_message True p_conf cur] s'))) \<and>
               (i_type p_new = CONFIG_ITEM_INTEGER \<longrightarrow>
                  (\<forall>a. optarg r = Some a \<longrightarrow>
                     parse_loop env g v s =
                       parse_loop env g' v
                         (config_Put (PutInt cur (int_of_long (strtol a 0)))
                            (print_stderr [deprecated_message True p_conf cur] s')))) \<and>
               (i_type p_new = CONFIG_ITEM_FLOAT \<longrightarrow>
                  (\<forall>a. optarg r = Some a \<longrightarrow>
                     parse_loop env g v s =
                       parse_loop env g' v
                         (config_Put (PutFloat cur a)
                            (print_stderr [deprecated_message True p_conf cur] s')))) \<and>
               (i_type p_new = CONFIG_ITEM_KEY \<longrightarrow>
                  parse_loop env g v s =
                    parse_loop env g' v
                      (config_Put (PutInt cur (ConfigStringToKey env (optarg r)))
                         (print_stderr [deprecated_message True p_conf cur] s'))) \<and>
               (i_type p_new = CONFIG_ITEM_BOOL \<longrightarrow>
                  parse_loop env g v s =
                    parse_loop env g' v
                      (config_Put (PutInt cur (if flag r = 0 then 1 else 0))
                         (print_stderr [deprecated_message True p_conf cur] s')))))"
proof -
  have strict: "\<not> b_ignore_errors env \<Longrightarrow>
      loop_body env r g' v s' = Stop (Return (- 1)) (print_stderr [deprecated_message False p_conf cur] s')"
    using assms(2-5) by (simp add: loop_body_def Let_def)
  have permissive: "b_ignore_errors env \<Longrightarrow> config_FindConfig (p_this env) cur = Some p_new \<Longrightarrow>
      loop_body env r g' v s' =
        store_long env cur (i_type p_new) r v (print_stderr [deprecated_message True p_conf cur] s')"
    for p_new
    using assms(2-5) by (simp add: loop_body_def Let_def)
  have nf: "i_cmd r \<noteq> - 1" using assms(2) by simp
  note step = parse_loop_step [OF assms(1) nf, of v]
  show ?thesis
  proof (intro conjI impI allI)
    assume "\<not> b_ignore_errors env"
    from strict [OF this]
    show "parse_loop env g v s = (Return (- 1), print_stderr [deprecated_message False p_conf cur] s')"
      by (simp add: step continue_with_def)
    then show "config_store (snd (parse_loop env g v s)) = config_store s"
      using getopt_step_store [OF assms(1)] by (simp add: print_stderr_def)
  next
    fix p_new
    assume a: "b_ignore_errors env" "config_FindConfig (p_this env) cur = Some p_new"
      "i_type p_new \<in> {CONFIG_ITEM_STRING, CONFIG_ITEM_PASSWORD, CONFIG_ITEM_FILE,
                        CONFIG_ITEM_DIRECTORY, CONFIG_ITEM_MODULE, CONFIG_ITEM_MODULE_LIST,
                        CONFIG_ITEM_MODULE_LIST_CAT, CONFIG_ITEM_MODULE_CAT}"
    from a(3) show "parse_loop env g v s =
        parse_loop env g' v
          (config_Put (PutPsz cur (optarg r)) (print_stderr [deprecated_message True p_conf cur] s'))"
      by (simp add: step permissive [OF a(1,2)] continue_with_def store_long_def)
  next
    fix p_new a
    assume a: "b_ignore_errors env" "config_FindConfig (p_this env) cur = Some p_new"
      "i_type p_new = CONFIG_ITEM_INTEGER" "optarg r = Some a"
    from a(3,4) show "parse_loop env g v s =
        parse_loop env g' v
          (config_Put (PutInt cur (int_of_long (strtol a 0)))
             (print_stderr [deprecated_message True p_conf cur] s'))"
      by (simp add: step permissive [OF a(1,2)] continue_with_def store_long_def)
  next
    fix p_new a
    assume a: "b_ignore_errors env" "config_FindConfig (p_this env) cur = Some p_new"
      "i_type p_new = CONFIG_ITEM_FLOAT" "optarg r = Some a"
    from a(3,4) show "parse_loop env g v s =
        parse_loop env g' v
          (config_Put (PutFloat cur a) (print_stderr [deprecated_message True p_conf cur] s'))"
      by (simp add: step permissive [OF a(1,2)] continue_with_def store_long_def)
  next
    fix p_new
    assume a: "b_ignore_errors env" "config_FindConfig (p_this env) cur = Some p_new"
      "i_type p_new = CONFIG_ITEM_KEY"
    from a(3) show "parse_loop env g v s =
        parse_loop env g' v
          (config_Put (PutInt cur (ConfigStringToKey env (optarg r)))
             (print_stderr [deprecated_message True p_conf cur] s'))"
      by (simp add: step permissive [OF a(1,2)] continue_with_def store_long_def)
  next
    fix p_new
    assume a: "b_ignore_errors env" "config_FindConfig (p_this env) cur = Some p_new"
      "i_type p_new = CONFIG_ITEM_BOOL"
    from a(3) show "parse_loop env g v s =
        parse_loop env g' v
          (config_Put (PutInt cur (if flag r = 0 then 1 else 0))
             (print_stderr [deprecated_message True p_conf cur] s'))"
      by (simp add: step permissive [OF a(1,2)] continue_with_def store_long_def)
  qed
qed

theorem deprecated_option_witness:
  "example_call False [''vlc'', ''--old-width=5'', ''--width=2''] =
     (Return (- 1),
      (example_state [''vlc'', ''--old-width=5'', ''--width=2''])
        \<lparr>stderr_out := [''Error: option --old-width is deprecated. Use --width instead.'' @ [CHR 0x0A]],
         optopt := 63\<rparr>) \<and>
   example_call True [''vlc'', ''--old-width=5'', ''--width=2''] =
     (Return 0,
      (example_state [''vlc'', ''--old-width=5'', ''--width=2''])
        \<lparr>config_store := [PutInt ''width'' 5, PutInt ''width'' 2],
         stderr_out := [''Warning: option --old-width is deprecated. Use --width instead.'' @ [CHR 0x0A]]\<rparr>) \<and>
   config_store (snd (example_call False [''vlc'', ''-w1'', ''--old-width=5'', ''--width=2''])) =
     [PutInt ''width'' 1]"
proof -
  let ?a = "[''vlc'', ''--old-width=5'', ''--width=2'']"
  let ?r = "\<lparr>i_cmd = 0, i_index = 6, flag = 0, optarg = Some ''5''\<rparr>"
  let ?g = "\<lparr>optind = 2, nextchar = [], first_nonopt = 1, last_nonopt = 1\<rparr>"
  let ?p = "example_item ''old-width'' (CHR 0x00) CONFIG_ITEM_INTEGER (Some ''width'') False"
  let ?w = "example_item ''width'' (CHR ''w'') CONFIG_ITEM_INTEGER None False"
  let ?t = "(example_state ?a)\<lparr>private_argv := Some ?a\<rparr>"
  have strict: "getopt_step (example_env False) getopt_initialize (example_state ?a) =
      (?r, ?g, example_state ?a)"
    by (simp add: example_defs table_defs scanner_defs)
  have permissive: "getopt_step (example_env True) getopt_initialize ?t = (?r, ?g, ?t)"
    by (simp add: example_defs table_defs scanner_defs)
  have found: "config_FindConfig (p_this (example_env False)) (long_name (example_env False) ?r) = Some ?p"
    "config_FindConfig (p_this (example_env True)) (long_name (example_env True) ?r) = Some ?p"
    "config_FindConfig (p_this (example_env True)) ''width'' = Some ?w"
    by (simp_all add: example_defs table_defs long_name_def config_FindConfig_def)
  have p: "psz_current ?p = Some ''width''" "\<not> b_strict ?p" "i_type ?w = CONFIG_ITEM_INTEGER"
    by (simp_all add: example_item_def)
  from deprecated_option [OF strict _ found(1) p(1,2), of 0, THEN conjunct1]
  have "example_call False ?a =
      (Return (- 1), print_stderr [deprecated_message False ?p ''width''] (example_state ?a))"
    by (simp add: example_call_loop example_env_def)
  then have one: "example_call False ?a =
     (Return (- 1),
      (example_state ?a)
        \<lparr>stderr_out := [''Error: option --old-width is deprecated. Use --width instead.'' @ [CHR 0x0A]],
         optopt := 63\<rparr>)"
    by (simp add: print_stderr_def deprecated_message_def example_item_def example_state_def)
  from deprecated_option [OF permissive _ found(2) p(1,2), of 0, THEN conjunct2, rule_format,
      OF _ _ found(3), THEN conjunct2, THEN conjunct1, rule_format, OF _ _ p(3), of "''5''"]
  have "example_call True ?a =
      parse_loop (example_env True) ?g 0
        (config_Put (PutInt ''width'' (int_of_long (strtol ''5'' 0)))
           (print_stderr [deprecated_message True ?p ''width''] ?t))"
    by (simp add: example_call_loop example_env_def)
  also have "\<dots> =
     (Return 0,
      (example_state ?a)
        \<lparr>config_store := [PutInt ''width'' 5, PutInt ''width'' 2],
         stderr_out := [''Warning: option --old-width is deprecated. Use --width instead.'' @ [CHR 0x0A]]\<rparr>)"
    by (simp add: eval_defs)
  finally have two: "example_call True ?a =
     (Return 0,
      (example_state ?a)
        \<lparr>config_store := [PutInt ''width'' 5, PutInt ''width'' 2],
         stderr_out := [''Warning: option --old-width is deprecated. Use --width instead.'' @ [CHR 0x0A]]\<rparr>)" .
  have three: "config_store (snd (example_call False [''vlc'', ''-w1'', ''--old-width=5'', ''--width=2''])) =
     [PutInt ''width'' 1]"
    by (simp add: eval_defs)
  from one two three show ?thesis by simp
qed

text \<open>
  C2: the short option \<open>-v\<close> of an integer descriptor, whose specification is
  \<open>v::\<close>. In every pass where the scanner returns \<open>v\<close>, the counter
  \<open>i_verbose\<close> of the call moves by \<open>verbose_step\<close> and the new value of the
  counter, not the increment, is stored under the descriptor's name; every other pass
  hands the counter on unchanged. A bare \<open>-v\<close> adds one; \<open>-v\<close> followed by
  \<open>k\<close> more \<open>v\<close> adds \<open>1 + k\<close>; \<open>-vN\<close> adds \<open>atoi(N)\<close>. For an
  argument vector made of such tokens the call returns 0 and has stored the running
  values of the counter, one per token: 1, 2, 3 for \<open>-v -v -v\<close>, 2 for \<open>-vv\<close>,
  2 for \<open>-v2\<close>, and 1 then 3 for \<open>-v -vv\<close>. The counter is a C \<open>int\<close>
  (32 bits).
\<close>

theorem verbosity_counter:
  assumes "dropWhile (\<lambda>x. x \<noteq> CHR ''v'') (psz_shortopts (tabs env)) =
             CHR ''v'' # CHR '':'' # CHR '':'' # rest"
    and "pp_shortopts (tabs env) (of_char CHR ''v'') = Some p" and "i_type p = CONFIG_ITEM_INTEGER"
  shows "(\<forall>g s r g' s' v. getopt_step env g s = (r, g', s') \<and> i_cmd r = of_char CHR ''v'' \<longrightarrow>
            parse_loop env g v s =
              parse_loop env g' (verbose_step v (optarg r))
                (config_Put (PutInt (psz_name p) (sint (verbose_step v (optarg r)))) s')) \<and>
         (\<forall>s prog args. read_argv (ppsz_argv env) s = prog # map verbose_token args \<longrightarrow>
            fst (parse_loop env getopt_initialize 0 s) = Return 0 \<and>
            config_store (snd (parse_loop env getopt_initialize 0 s)) =
              config_store s @
              map (\<lambda>w. PutInt (psz_name p) (sint w)) (verbose_run 0 (map attached args))) \<and>
         (\<forall>g r v s w t. loop_body env r g v s = Continue w t \<and> i_cmd r \<noteq> of_char CHR ''v'' \<longrightarrow>
            w = v) \<and>
         (\<forall>v. verbose_step v None = v + 1) \<and>
         (\<forall>v k b. take 1 b \<noteq> ''v'' \<longrightarrow>
            verbose_step v (Some (replicate (Suc k) CHR ''v'' @ b)) = v + 1 + of_nat (Suc k)) \<and>
         (\<forall>v a. take 1 a \<noteq> ''v'' \<longrightarrow> verbose_step v (Some a) = v + word_of_int (atoi a)) \<and>
         map sint (verbose_run 0 (map attached [[], [], []])) = [1, 2, 3] \<and>
         map sint (verbose_run 0 (map attached [''v''])) = [2] \<and>
         map sint (verbose_run 0 (map attached [''2''])) = [2] \<and>
         map sint (verbose_run 0 (map attached [[], ''v''])) = [1, 3]"
proof -
  have pass: "\<forall>g s r g' s' v. getopt_step env g s = (r, g', s') \<and> i_cmd r = of_char CHR ''v'' \<longrightarrow>
            parse_loop env g v s =
              parse_loop env g' (verbose_step v (optarg r))
                (config_Put (PutInt (psz_name p) (sint (verbose_step v (optarg r)))) s')"
    using verbose_pass [OF _ _ assms(2,3)] by blast
  have run: "\<forall>s prog args. read_argv (ppsz_argv env) s = prog # map verbose_token args \<longrightarrow>
            fst (parse_loop env getopt_initialize 0 s) = Return 0 \<and>
            config_store (snd (parse_loop env getopt_initialize 0 s)) =
              config_store s @
              map (\<lambda>w. PutInt (psz_name p) (sint w)) (verbose_run 0 (map attached args))"
  proof (intro allI impI)
    fix s prog args
    assume a: "read_argv (ppsz_argv env) s = prog # map verbose_token args"
    have "read_argv (ppsz_argv env) s = [prog] @ map verbose_token args" using a by simp
    from verbose_scan [OF assms, of getopt_initialize "[prog]" s args 0, OF _ _ _ _ _ this]
    show "fst (parse_loop env getopt_initialize 0 s) = Return 0 \<and>
            config_store (snd (parse_loop env getopt_initialize 0 s)) =
              config_store s @
              map (\<lambda>w. PutInt (psz_name p) (sint w)) (verbose_run 0 (map attached args))"
      by (simp add: getopt_initialize_def)
  qed
  have others: "\<forall>g r v s w t. loop_body env r g v s = Continue w t \<and> i_cmd r \<noteq> of_char CHR ''v'' \<longrightarrow>
            w = v"
    using loop_body_counter by blast
  have none: "\<forall>v. verbose_step v None = v + 1" by (simp add: verbose_step_def)
  have cluster: "\<forall>v k b. take 1 b \<noteq> ''v'' \<longrightarrow>
            verbose_step v (Some (replicate (Suc k) CHR ''v'' @ b)) = v + 1 + of_nat (Suc k)"
  proof (intro allI impI)
    fix v :: "32 word" and k b
    assume b: "take 1 b \<noteq> ''v''"
    have "takeWhile (\<lambda>c. c = CHR ''v'') (replicate (Suc k) CHR ''v'' @ b) = replicate (Suc k) CHR ''v''"
      using b by (cases b) (auto simp: takeWhile_append)
    then show "verbose_step v (Some (replicate (Suc k) CHR ''v'' @ b)) = v + 1 + of_nat (Suc k)"
      by (simp add: verbose_step_def)
  qed
  have number: "\<forall>v a. take 1 a \<noteq> ''v'' \<longrightarrow> verbose_step v (Some a) = v + word_of_int (atoi a)"
    by (simp add: verbose_step_def)
  have ex: "map sint (verbose_run 0 (map attached [[], [], []])) = [1, 2, 3]"
    "map sint (verbose_run 0 (map attached [''v''])) = [2]"
    "map sint (verbose_run 0 (map attached [''2''])) = [2]"
    "map sint (verbose_run 0 (map attached [[], ''v''])) = [1, 3]"
    by (simp_all add: attached_def verbose_step_def number_defs)
  from pass run others none cluster number ex show ?thesis by blast
qed

theorem verbosity_counter_witness:
  "config_store (snd (example_call False [''vlc'', ''-v'', ''-v'', ''-v''])) =
     [PutInt ''verbose'' 1, PutInt ''verbose'' 2, PutInt ''verbose'' 3] \<and>
   config_store (snd (example_call False [''vlc'', ''-vv''])) = [PutInt ''verbose'' 2] \<and>
   config_store (snd (example_call False [''vlc'', ''-v2''])) = [PutInt ''verbose'' 2] \<and>
   config_store (snd (example_call False [''vlc'', ''-v'', ''-vv''])) =
     [PutInt ''verbose'' 1, PutInt ''verbose'' 3]"
proof -
  let ?p = "example_item ''verbose'' (CHR ''v'') CONFIG_ITEM_INTEGER None False"
  have t1: "dropWhile (\<lambda>x. x \<noteq> CHR ''v'') (psz_shortopts (tabs (example_env False))) =
              CHR ''v'' # CHR '':'' # CHR '':'' # ''fw:I:''"
    by (simp add: example_defs table_defs)
  have t2: "pp_shortopts (tabs (example_env False)) (of_char CHR ''v'') = Some ?p"
    by (simp add: example_defs table_defs)
  have t3: "i_type ?p = CONFIG_ITEM_INTEGER" by (simp add: example_item_def)
  note run = verbosity_counter [OF t1 t2 t3, THEN conjunct2, THEN conjunct1, rule_format, THEN conjunct2]
  have rd: "\<And>a. read_argv (ppsz_argv (example_env False)) (example_state a) = a"
    by (simp add: read_argv_def example_env_def example_state_def)
  have a1: "[''vlc'', ''-v'', ''-v'', ''-v''] = ''vlc'' # map verbose_token [[], [], []]"
    and a2: "[''vlc'', ''-vv''] = ''vlc'' # map verbose_token [''v'']"
    and a3: "[''vlc'', ''-v2''] = ''vlc'' # map verbose_token [''2'']"
    and a4: "[''vlc'', ''-v'', ''-vv''] = ''vlc'' # map verbose_token [[], ''v'']"
    by (simp_all add: verbose_token_def)
  have n: "psz_name ?p = ''verbose''" "config_store (example_state a) = []" for a
    by (simp_all add: example_item_def example_state_def)
  show ?thesis
    using run [of "example_state [''vlc'', ''-v'', ''-v'', ''-v'']" "''vlc''" "[[], [], []]"]
      run [of "example_state [''vlc'', ''-vv'']" "''vlc''" "[''v'']"]
      run [of "example_state [''vlc'', ''-v2'']" "''vlc''" "[''2'']"]
      run [of "example_state [''vlc'', ''-v'', ''-vv'']" "''vlc''" "[[], ''v'']"]
    unfolding rd a1 [symmetric] a2 [symmetric] a3 [symmetric] a4 [symmetric]
    by (simp add: example_call_loop n attached_def verbose_step_def number_defs)
qed

text \<open>
  C3, as the spec states it, fails for four kinds of registries. For the name
  \<open>-x\<close> the entry \<open>no-x\<close> is the form \<open>noX\<close>, but line 274 reads its third
  character as the dash of \<open>no-X\<close> and looks up \<open>x\<close>: nothing is stored, and
  strict mode reports an unknown option. For the deprecated boolean \<open>fs\<close> the
  negation \<open>nofs\<close> is stored under the replacement's name when errors are ignored,
  and aborts the call in strict mode. The boolean \<open>nofullscreen\<close> shares its name
  with the negation of \<open>fullscreen\<close>, whose entry stands first:
  \<open>--nofullscreen\<close> stores 0 under \<open>fullscreen\<close>. And when the allocation of
  a negated name fails, the table has neither that entry nor the one after it.
\<close>

theorem bool_option_counterexample:
  "\<lparr>opt_name = Some (''no'' @ ''-x''), has_arg = no_argument, opt_val = 1\<rparr>
     \<in> set (p_longopts (snd (build_tables (p_list negation_object) []))) \<and>
   fst (negation_call False [''vlc'', ''--no-x'']) = Return (- 1) \<and>
   config_store (snd (negation_call False [''vlc'', ''--no-x''])) = [] \<and>
   negation_call True [''vlc'', ''--no-x''] = (Return 0, example_state [''vlc'', ''--no-x'']) \<and>
   config_store (snd (negation_call True [''vlc'', ''--nofs''])) = [PutInt ''fullscreen'' 0] \<and>
   fst (negation_call False [''vlc'', ''--nofs'']) = Return (- 1) \<and>
   config_store (snd (negation_call False [''vlc'', ''--nofs''])) = [] \<and>
   negation_call False [''vlc'', ''--nofullscreen''] =
     (Return 0,
      (example_state [''vlc'', ''--nofullscreen''])\<lparr>config_store := [PutInt ''fullscreen'' 0]\<rparr>) \<and>
   map opt_name (p_longopts (snd (build_tables [example_module] [True, True, False]))) =
     [Some ''verbose'', Some ''fullscreen'', Some ''width'', Some ''intf'', Some ''old-width'',
      Some ''old-height'', Some ''gone'', None]"
  by (simp add: eval_defs)

text \<open>
  C3 amended: a boolean descriptor \<open>d\<close> named \<open>X\<close> that is not deprecated, in
  a registry whose table of long options has each of the names \<open>X\<close>, \<open>noX\<close>
  and \<open>no-X\<close> once only, built with every allocation succeeding, the counters of
  each module agreeing with its items, and within its arrays. The table holds the
  entries \<open>X\<close> (value 0), \<open>noX\<close> and \<open>no-X\<close> (value 1), all without
  argument. A pass in which the scanner matches
  the long option \<open>X\<close> stores 1 under \<open>X\<close>; a pass in which it matches
  \<open>no-X\<close> stores 0 under \<open>X\<close>; a pass in which it matches \<open>noX\<close> stores
  0 under \<open>X\<close> provided \<open>X\<close> does not start with a dash. When \<open>X\<close> is
  not empty and holds no \<open>=\<close>, the scanner standing before the token \<open>--X\<close>,
  \<open>--noX\<close> or \<open>--no-X\<close> matches the long option of that name, with no
  argument.
\<close>

theorem bool_option:
  assumes "tabs env = snd (build_tables (p_list (p_this env)) h)" and "all_succeed h"
    and "\<forall>m\<in>set (p_list (p_this env)). module_counters_ok m"
    and "\<not> out_of_bounds (tabs env)"
    and "d \<in> set (descriptors (p_list (p_this env)))" and "i_type d = CONFIG_ITEM_BOOL"
    and "psz_current d = None"
    and "\<forall>nm\<in>{psz_name d, ''no'' @ psz_name d, ''no-'' @ psz_name d}.
           length (filter (\<lambda>e. opt_name e = Some nm) (p_longopts (tabs env))) = 1"
  shows "\<lparr>opt_name = Some (psz_name d), has_arg = no_argument, opt_val = 0\<rparr>
           \<in> set (p_longopts (tabs env)) \<and>
         \<lparr>opt_name = Some (''no'' @ psz_name d), has_arg = no_argument, opt_val = 1\<rparr>
           \<in> set (p_longopts (tabs env)) \<and>
         \<lparr>opt_name = Some (''no-'' @ psz_name d), has_arg = no_argument, opt_val = 1\<rparr>
           \<in> set (p_longopts (tabs env)) \<and>
         (\<forall>g s r g' s' v.
            getopt_step env g s = (r, g', s') \<and> i_cmd r = 0 \<and>
            opt_name (p_longopts (tabs env) ! i_index r) = Some (psz_name d) \<longrightarrow>
            parse_loop env g v s = parse_loop env g' v (config_Put (PutInt (psz_name d) 1) s')) \<and>
         (\<forall>g s r g' s' v.
            getopt_step env g s = (r, g', s') \<and> i_cmd r = 0 \<and>
            opt_name (p_longopts (tabs env) ! i_index r) = Some (''no-'' @ psz_name d) \<longrightarrow>
            parse_loop env g v s = parse_loop env g' v (config_Put (PutInt (psz_name d) 0) s')) \<and>
         (\<forall>g s r g' s' v.
            getopt_step env g s = (r, g', s') \<and> i_cmd r = 0 \<and>
            opt_name (p_longopts (tabs env) ! i_index r) = Some (''no'' @ psz_name d) \<and>
            take 1 (psz_name d) \<noteq> ''-'' \<longrightarrow>
            parse_loop env g v s = parse_loop env g' v (config_Put (PutInt (psz_name d) 0) s')) \<and>
         (\<forall>g s r g' s' nm.
            nextchar g = [] \<and> optind g < length (read_argv (ppsz_argv env) s) \<and>
            nm \<in> {psz_name d, ''no'' @ psz_name d, ''no-'' @ psz_name d} \<and>
            read_argv (ppsz_argv env) s ! optind g = ''--'' @ nm \<and>
            psz_name d \<noteq> [] \<and> CHR ''='' \<notin> set (psz_name d) \<and>
            getopt_step env g s = (r, g', s') \<longrightarrow>
            i_cmd r = 0 \<and> opt_name (p_longopts (tabs env) ! i_index r) = Some nm \<and>
            optarg r = None \<and> optind g' = Suc (optind g) \<and> nextchar g' = [])"
proof -
  let ?tab = "p_longopts (tabs env)"
  let ?ds = "filter (\<lambda>d. i_type d \<noteq> CONFIG_HINT) (descriptors (p_list (p_this env)))"
  let ?X = "psz_name d"
  let ?e0 = "\<lparr>opt_name = Some ?X, has_arg = no_argument, opt_val = 0\<rparr>"
  let ?e1 = "\<lparr>opt_name = Some (''no'' @ ?X), has_arg = no_argument, opt_val = 1\<rparr>"
  let ?e2 = "\<lparr>opt_name = Some (''no-'' @ ?X), has_arg = no_argument, opt_val = 1\<rparr>"
  have nh: "i_type d \<noteq> CONFIG_HINT" using assms(6) by simp
  have one: "length (filter (\<lambda>e. opt_name e = Some nm) ?tab) = 1"
    if "nm \<in> {?X, ''no'' @ ?X, ''no-'' @ ?X}" for nm
    using assms(8) that by blast
  have tabeq: "?tab = concat (map item_longopts ?ds) @ [zero_option]"
    using build_tables_eq(1) [OF assms(2,3)] assms(1) by simp
  from entry_in_table [OF assms(2,3,5) nh] assms(1,6)
  have tab: "?e0 \<in> set ?tab" "?e1 \<in> set ?tab" "?e2 \<in> set ?tab"
    by (simp_all add: item_longopts_def)
  have nonul: "CHR 0x00 \<notin> set (psz_shortopts (tabs env))"
    using shortopts_no_nul [OF assms(2,3)] assms(1) by simp
  have "d \<in> set ?ds" using assms(5) nh by simp
  moreover have "length (filter (\<lambda>e. opt_name e = Some ?X)
      (concat (map item_longopts ?ds) @ [zero_option])) = 1"
    using one [of ?X] tabeq by simp
  ultimately have "filter (\<lambda>p. psz_name p = ?X) ?ds = [d]"
    by (intro single_descriptor)
  then have "filter (\<lambda>p. i_type p \<noteq> CONFIG_HINT \<and> psz_name p = ?X)
      (descriptors (p_list (p_this env))) = [d]"
    by (simp add: conj_commute)
  then have found: "config_FindConfig (p_this env) ?X = Some d"
    unfolding config_FindConfig_def descriptors_def [symmetric] by (rule find_single)
  have entry: "?tab ! i_index r = e \<and> flag r = opt_val e"
    if "getopt_step env g s = (r, g', s')" "i_cmd r = 0" "e \<in> set ?tab"
      "opt_name e = Some nm" "nm \<in> {?X, ''no'' @ ?X, ''no-'' @ ?X}"
      "opt_name (?tab ! i_index r) = Some nm"
    for g s r g' s' e nm
  proof -
    from getopt_step_long [OF that(1,2) nonul]
    have i: "i_index r < length ?tab" and f: "flag r = opt_val (?tab ! i_index r)" by simp_all
    from entry_unique [OF one [OF that(5)] that(3,4) i that(6)] f show ?thesis by simp
  qed
  have store: "parse_loop env g v s =
      parse_loop env g' v (config_Put (PutInt ?X (if flag r = 0 then 1 else 0)) s')"
    if "getopt_step env g s = (r, g', s')" "i_cmd r = 0" "long_name env r = ?X"
    for g s r g' s' v
  proof -
    have "loop_body env r g' v s' =
        Continue v (config_Put (PutInt ?X (if flag r = 0 then 1 else 0)) s')"
      using that(2,3) found assms(6,7) by (simp add: loop_body_def store_long_def)
    with that(1,2) show ?thesis by (simp add: parse_loop_step continue_with_def)
  qed
  have pos: "\<forall>g s r g' s' v.
            getopt_step env g s = (r, g', s') \<and> i_cmd r = 0 \<and>
            opt_name (?tab ! i_index r) = Some ?X \<longrightarrow>
            parse_loop env g v s = parse_loop env g' v (config_Put (PutInt ?X 1) s')"
  proof (intro allI, rule impI, elim conjE)
    fix g s r g' s' v
    assume a: "getopt_step env g s = (r, g', s')" "i_cmd r = 0"
      "opt_name (?tab ! i_index r) = Some ?X"
    from entry [OF a(1,2) tab(1) _ _ a(3)] have f: "flag r = 0" by simp
    have "long_name env r = ?X" using a(3) f by (simp add: long_name_def)
    from store [OF a(1,2) this, of v] f
    show "parse_loop env g v s = parse_loop env g' v (config_Put (PutInt ?X 1) s')"
      by simp
  qed
  have dash: "\<forall>g s r g' s' v.
            getopt_step env g s = (r, g', s') \<and> i_cmd r = 0 \<and>
            opt_name (?tab ! i_index r) = Some (''no-'' @ ?X) \<longrightarrow>
            parse_loop env g v s = parse_loop env g' v (config_Put (PutInt ?X 0) s')"
  proof (intro allI, rule impI, elim conjE)
    fix g s r g' s' v
    assume a: "getopt_step env g s = (r, g', s')" "i_cmd r = 0"
      "opt_name (?tab ! i_index r) = Some (''no-'' @ ?X)"
    from entry [OF a(1,2) tab(3) _ _ a(3)] have f: "flag r = 1" by simp
    have "long_name env r = ?X" using a(3) f by (simp add: long_name_def)
    from store [OF a(1,2) this, of v] f
    show "parse_loop env g v s = parse_loop env g' v (config_Put (PutInt ?X 0) s')"
      by simp
  qed
  have plain: "\<forall>g s r g' s' v.
            getopt_step env g s = (r, g', s') \<and> i_cmd r = 0 \<and>
            opt_name (?tab ! i_index r) = Some (''no'' @ ?X) \<and> take 1 ?X \<noteq> ''-'' \<longrightarrow>
            parse_loop env g v s = parse_loop env g' v (config_Put (PutInt ?X 0) s')"
  proof (intro allI, rule impI, elim conjE)
    fix g s r g' s' v
    assume a: "getopt_step env g s = (r, g', s')" "i_cmd r = 0"
      "opt_name (?tab ! i_index r) = Some (''no'' @ ?X)" "take 1 ?X \<noteq> ''-''"
    from entry [OF a(1,2) tab(2) _ _ a(3)] have f: "flag r = 1" by simp
    have "long_name env r = ?X"
      using a(3,4) f by (cases ?X) (auto simp: long_name_def)
    from store [OF a(1,2) this, of v] f
    show "parse_loop env g v s = parse_loop env g' v (config_Put (PutInt ?X 0) s')"
      by simp
  qed
  have token: "\<forall>g s r g' s' nm.
            nextchar g = [] \<and> optind g < length (read_argv (ppsz_argv env) s) \<and>
            nm \<in> {?X, ''no'' @ ?X, ''no-'' @ ?X} \<and>
            read_argv (ppsz_argv env) s ! optind g = ''--'' @ nm \<and>
            ?X \<noteq> [] \<and> CHR ''='' \<notin> set ?X \<and>
            getopt_step env g s = (r, g', s') \<longrightarrow>
            i_cmd r = 0 \<and> opt_name (?tab ! i_index r) = Some nm \<and>
            optarg r = None \<and> optind g' = Suc (optind g) \<and> nextchar g' = []"
  proof (intro allI, rule impI, elim conjE)
    fix g :: getopt_state and s :: vlc_state and r :: getopt_result and g' :: getopt_state
      and s' :: vlc_state and nm :: string
    assume a: "nextchar g = []" "optind g < length (read_argv (ppsz_argv env) s)"
      "nm \<in> {?X, ''no'' @ ?X, ''no-'' @ ?X}"
      "read_argv (ppsz_argv env) s ! optind g = ''--'' @ nm"
      "?X \<noteq> []" "CHR ''='' \<notin> set ?X" "getopt_step env g s = (r, g', s')"
    from a(3) tab obtain e where e: "e \<in> set ?tab" "opt_name e = Some nm" "has_arg e = no_argument"
      by auto
    have live: "\<forall>x\<in>set (concat (map item_longopts ?ds)). opt_name x \<noteq> None"
      by (auto simp: item_longopts_def split: if_splits)
    have "e \<in> set (concat (map item_longopts ?ds))"
      using e(1,2) tabeq by (auto simp: zero_option_def)
    then have "\<exists>x\<in>set (concat (map item_longopts ?ds)). opt_name x = Some nm"
      using e(2) by blast
    from lookup_long_finds [OF this live, of "[zero_option]" 0] tabeq
    obtain i where i: "lookup_long nm ?tab 0 = Some i" by auto
    from lookup_long_Some [OF i] have ii: "i < length ?tab" "opt_name (?tab ! i) = Some nm"
      by simp_all
    from entry_unique [OF one [OF a(3)] e(1,2) ii] have "?tab ! i = e" .
    then have ha: "has_arg (?tab ! i) = no_argument" using e(3) by simp
    have n1: "nm \<noteq> []" using a(3,5) by auto
    have n2: "CHR ''='' \<notin> set nm" using a(3,6) by auto
    have tk: "read_argv (ppsz_argv env) s ! optind g = CHR ''-'' # CHR ''-'' # nm" using a(4) by simp
    from a(7) obtain argv2 oo' where
      gl: "getopt_long (read_argv (ppsz_argv env) s) (psz_shortopts (tabs env)) ?tab g (optopt s) =
             (r, argv2, g', oo')"
      by (auto simp: getopt_step_def split: prod.splits)
    from getopt_long_flag_token [OF a(1,2) tk n1 n2 i ha gl] ii(2)
    show "i_cmd r = 0 \<and> opt_name (?tab ! i_index r) = Some nm \<and>
            optarg r = None \<and> optind g' = Suc (optind g) \<and> nextchar g' = []"
      by simp
  qed
  from tab pos dash plain token show ?thesis by (intro conjI)
qed

theorem bool_option_witness:
  "config_store (snd (example_call False [''vlc'', ''--nofullscreen'', ''--no-fullscreen'', ''--fullscreen''])) =
     [PutInt ''fullscreen'' 0, PutInt ''fullscreen'' 0, PutInt ''fullscreen'' 1] \<and>
   parse_loop (example_env False) getopt_initialize 0 (example_state [''vlc'', ''--nofullscreen'']) =
     (Return 0, (example_state [''vlc'', ''--nofullscreen''])\<lparr>config_store := [PutInt ''fullscreen'' 0]\<rparr>) \<and>
   \<lparr>opt_name = Some ''nofullscreen'', has_arg = no_argument, opt_val = 1\<rparr>
     \<in> set (p_longopts (tabs (example_env False))) \<and>
   length (filter (\<lambda>e. opt_name e = Some ''nofullscreen'') (p_longopts (tabs (example_env False)))) = 1"
proof -
  let ?d = "example_item ''fullscreen'' (CHR ''f'') CONFIG_ITEM_BOOL None False"
  let ?s = "example_state [''vlc'', ''--nofullscreen'']"
  have h: "tabs (example_env False) = snd (build_tables (p_list (p_this (example_env False))) [])"
    "all_succeed []" "\<forall>m\<in>set (p_list (p_this (example_env False))). module_counters_ok m"
    "\<not> out_of_bounds (tabs (example_env False))"
    "?d \<in> set (descriptors (p_list (p_this (example_env False))))" "i_type ?d = CONFIG_ITEM_BOOL"
    "psz_current ?d = None"
    "\<forall>nm\<in>{psz_name ?d, ''no'' @ psz_name ?d, ''no-'' @ psz_name ?d}.
       length (filter (\<lambda>e. opt_name e = Some nm) (p_longopts (tabs (example_env False)))) = 1"
    by (simp_all add: example_defs table_defs all_succeed_def module_counters_ok_def descriptors_def)
  note b = bool_option [OF h]
  have st: "getopt_step (example_env False) getopt_initialize ?s =
      (\<lparr>i_cmd = 0, i_index = 2, flag = 1, optarg = None\<rparr>,
       \<lparr>optind = 2, nextchar = [], first_nonopt = 1, last_nonopt = 1\<rparr>, ?s)"
    by (simp add: example_defs table_defs scanner_defs)
  have e: "opt_name (p_longopts (tabs (example_env False)) ! 2) = Some (''no'' @ psz_name ?d)"
    by (simp add: example_defs table_defs)
  have nd: "take 1 (psz_name ?d) \<noteq> ''-''" by (simp add: example_item_def)
  from b [THEN conjunct2, THEN conjunct2, THEN conjunct2, THEN conjunct2, THEN conjunct2,
      THEN conjunct1, rule_format, of getopt_initialize ?s _ _ _ 0] st e nd
  have "parse_loop (example_env False) getopt_initialize 0 ?s =
        parse_loop (example_env False) \<lparr>optind = 2, nextchar = [], first_nonopt = 1, last_nonopt = 1\<rparr> 0
          (config_Put (PutInt (psz_name ?d) 0) ?s)"
    by simp
  moreover have "parse_loop (example_env False) \<lparr>optind = 2, nextchar = [], first_nonopt = 1, last_nonopt = 1\<rparr> 0
          (config_Put (PutInt (psz_name ?d) 0) ?s) =
     (Return 0, ?s\<lparr>config_store := [PutInt ''fullscreen'' 0]\<rparr>)"
    by (simp add: eval_defs)
  moreover have "config_store (snd (example_call False [''vlc'', ''--nofullscreen'', ''--no-fullscreen'', ''--fullscreen''])) =
     [PutInt ''fullscreen'' 0, PutInt ''fullscreen'' 0, PutInt ''fullscreen'' 1]"
    by (simp add: eval_defs)
  moreover have "\<lparr>opt_name = Some ''nofullscreen'', has_arg = no_argument, opt_val = 1\<rparr>
     \<in> set (p_longopts (tabs (example_env False)))"
    using b [THEN conjunct2, THEN conjunct1] by (simp add: example_item_def)
  moreover have "length (filter (\<lambda>e. opt_name e = Some ''nofullscreen'')
      (p_longopts (tabs (example_env False)))) = 1"
    by (simp add: example_defs table_defs)
  ultimately show ?thesis by simp
qed

text \<open>
  C4: when every allocation of a name succeeds and the counters of each module agree
  with its items, the table of long options is the entries of the descriptors that are
  not hints, in the order of the traversal (one entry, three for a boolean), followed
  by the zeroed entry. The live entries number \<open>countNonHint + 2 * countBool\<close>, each
  has a name, and the array allocated at line 134 has that many slots plus one.
\<close>

theorem long_option_table:
  assumes "all_succeed h" and "\<forall>m\<in>set ms. module_counters_ok m"
  shows "p_longopts (snd (build_tables ms h)) =
           concat (map item_longopts (filter (\<lambda>d. i_type d \<noteq> CONFIG_HINT) (descriptors ms))) @
           [zero_option] \<and>
         length (concat (map item_longopts (filter (\<lambda>d. i_type d \<noteq> CONFIG_HINT) (descriptors ms)))) =
           countNonHint ms + 2 * countBool ms \<and>
         (\<forall>e\<in>set (concat (map item_longopts (filter (\<lambda>d. i_type d \<noteq> CONFIG_HINT) (descriptors ms)))).
            opt_name e \<noteq> None) \<and>
         count_opts ms + 1 = countNonHint ms + 2 * countBool ms + 1"
proof -
  let ?ds = "filter (\<lambda>d. i_type d \<noteq> CONFIG_HINT) (descriptors ms)"
  have b: "(\<lambda>x. i_type x \<noteq> CONFIG_HINT \<and> i_type x = CONFIG_ITEM_BOOL) =
           (\<lambda>d. i_type d = CONFIG_ITEM_BOOL)"
    by auto
  have "length (concat (map item_longopts ?ds)) = countNonHint ms + 2 * countBool ms"
    by (simp add: length_item_longopts b countNonHint_def countBool_def)
  moreover have "\<forall>e\<in>set (concat (map item_longopts ?ds)). opt_name e \<noteq> None"
    by (auto simp: item_longopts_def split: if_splits)
  ultimately show ?thesis
    using build_tables_eq(1) [OF assms] count_opts_eq [OF assms(2)] by simp
qed

theorem long_option_table_witness:
  "all_succeed [] \<and> module_counters_ok example_module \<and>
   length (p_longopts (snd (build_tables [example_module] []))) = 10 \<and>
   countNonHint [example_module] = 7 \<and> countBool [example_module] = 1 \<and>
   last (p_longopts (snd (build_tables [example_module] []))) = zero_option"
  using long_option_table [of "[]" "[example_module]"]
  by (simp add: all_succeed_def module_counters_ok_def example_module_def example_item_def
      countNonHint_def countBool_def descriptors_def item_longopts_def)




text \<open>
  C6, as the spec states it, fails: the test of lines 281-289 is made for a long option
  only. The removed \<open>gone\<close> has the short option \<open>-g\<close> in this registry, and
  \<open>-g5\<close> is stored under \<open>gone\<close> with no warning, in both modes.
\<close>

theorem removed_option_counterexample:
  "flagged_call False [''vlc'', ''-g5''] =
     (Return 0, (example_state [''vlc'', ''-g5''])\<lparr>config_store := [PutInt ''gone'' 5]\<rparr>) \<and>
   flagged_call True [''vlc'', ''-g5''] =
     (Return 0, (example_state [''vlc'', ''-g5''])\<lparr>config_store := [PutInt ''gone'' 5]\<rparr>) \<and>
   config_FindConfig flagged_object ''gone'' =
     Some (example_item ''gone'' (CHR ''g'') CONFIG_ITEM_INTEGER (Some ''width'') True)"
  by (simp add: eval_defs)

text \<open>
  C6 amended: a long option whose descriptor names a replacement and is marked removed
  (\<open>b_strict\<close>). Whatever the mode, the pass prints the warning, writes nothing to
  the store and the loop goes on with the next token; the option's argument is dropped.
\<close>

theorem removed_option:
  assumes "getopt_step env g s = (r, g', s')" and "i_cmd r = 0"
    and "config_FindConfig (p_this env) (long_name env r) = Some p_conf"
    and "psz_current p_conf = Some cur" and "b_strict p_conf"
  shows "parse_loop env g v s = parse_loop env g' v (print_stderr [removed_message p_conf] s') \<and>
         config_store (print_stderr [removed_message p_conf] s') = config_store s \<and>
         stderr_out (print_stderr [removed_message p_conf] s') = stderr_out s @ [removed_message p_conf]"
  using assms getopt_step_store [OF assms(1)]
  by (simp add: parse_loop_step loop_body_def continue_with_def print_stderr_def)

theorem removed_option_witness:
  "example_call False [''vlc'', ''--gone=1'', ''-w3''] =
     (Return 0,
      (example_state [''vlc'', ''--gone=1'', ''-w3''])
        \<lparr>config_store := [PutInt ''width'' 3],
         stderr_out := [''Warning: option --gone no longer exists.'' @ [CHR 0x0A]]\<rparr>) \<and>
   fst (example_call True [''vlc'', ''--gone=1'', ''-w3'']) = Return 0 \<and>
   config_store (snd (example_call True [''vlc'', ''--gone=1'', ''-w3''])) = [PutInt ''width'' 3] \<and>
   stderr_out (snd (example_call True [''vlc'', ''--gone=1'', ''-w3''])) =
     [''Warning: option --gone no longer exists.'' @ [CHR 0x0A]]"
  using removed_option [where env = "example_env False" and g = getopt_initialize
      and s = "example_state [''vlc'', ''--gone=1'', ''-w3'']"
      and r = "fst (getopt_step (example_env False) getopt_initialize
                 (example_state [''vlc'', ''--gone=1'', ''-w3'']))"
      and g' = "fst (snd (getopt_step (example_env False) getopt_initialize
                 (example_state [''vlc'', ''--gone=1'', ''-w3''])))"
      and s' = "snd (snd (getopt_step (example_env False) getopt_initialize
                 (example_state [''vlc'', ''--gone=1'', ''-w3''])))"
      and p_conf = "example_item ''gone'' (CHR 0x00) CONFIG_ITEM_INTEGER (Some ''width'') True"
      and cur = "''width''" and v = 0]
  by (simp add: eval_defs)

text \<open>
  C7, as the spec states it, fails: a text that is not a number need not store 0.
  \<open>strtol\<close> converts the digits the text starts with, so \<open>12abc\<close> stores 12,
  and a number too large for a \<open>long\<close> is clamped and stores \<open>-1\<close> as an
  \<open>int\<close>. An integer option can also make the strict call fail whatever its
  argument: the deprecated \<open>old-width\<close>.
\<close>

theorem integer_option_counterexample:
  "example_call False [''vlc'', ''--width=12abc''] =
     (Return 0, (example_state [''vlc'', ''--width=12abc''])\<lparr>config_store := [PutInt ''width'' 12]\<rparr>) \<and>
   config_store (snd (example_call True [''vlc'', ''-w'', ''12abc''])) = [PutInt ''width'' 12] \<and>
   config_store (snd (example_call False [''vlc'', ''-w'', ''99999999999999999999''])) =
     [PutInt ''width'' (- 1)] \<and>
   fst (example_call False [''vlc'', ''--old-width=abc'']) = Return (- 1) \<and>
   config_store (snd (example_call False [''vlc'', ''--old-width=abc''])) = []"
  by (simp add: eval_defs)

text \<open>
  C7 amended: an integer option that is not the short option \<open>-v\<close>, with the
  argument \<open>a\<close>: a long option resolved to a descriptor of type integer that is
  not deprecated (lines 322-324), or a short option of that type (lines 380-384). The
  pass stores \<open>strtol(a, 0, 0)\<close>, as an \<open>int\<close>, under the option's name and
  the loop goes on, whatever the text and the mode. The text \<open>0x10\<close> stores 16 and
  \<open>010\<close> stores 8; \<open>12abc\<close> stores 12, the number it starts with; a text with
  no digit at its start, after white space and a sign, stores 0.
\<close>

theorem integer_option:
  assumes "getopt_step env g s = (r, g', s')" and "optarg r = Some a"
    and "i_cmd r = 0 \<and> config_FindConfig (p_this env) (long_name env r) = Some p \<and>
           psz_current p = None \<and> nm = long_name env r \<or>
         i_cmd r \<notin> {0, - 1, of_char CHR ''v''} \<and> pp_shortopts (tabs env) (i_cmd r) = Some p \<and>
           nm = psz_name p"
    and "i_type p = CONFIG_ITEM_INTEGER"
  shows "parse_loop env g v s =
           parse_loop env g' v (config_Put (PutInt nm (int_of_long (strtol a 0))) s') \<and>
         (a = ''0x10'' \<longrightarrow> int_of_long (strtol a 0) = 16) \<and>
         (a = ''010'' \<longrightarrow> int_of_long (strtol a 0) = 8) \<and>
         (a = ''12abc'' \<longrightarrow> int_of_long (strtol a 0) = 12) \<and>
         (no_conversion a \<longrightarrow> int_of_long (strtol a 0) = 0)"
proof -
  have "loop_body env r g' v s' = Continue v (config_Put (PutInt nm (int_of_long (strtol a 0))) s')"
    using assms(2-4)
    by (auto simp: loop_body_def short_or_unknown_def store_long_def store_short_def)
  moreover have "i_cmd r \<noteq> - 1" using assms(3) by auto
  ultimately have "parse_loop env g v s =
           parse_loop env g' v (config_Put (PutInt nm (int_of_long (strtol a 0))) s')"
    using assms(1) by (simp add: parse_loop_step continue_with_def)
  moreover have "int_of_long (strtol ''0x10'' 0) = 16" "int_of_long (strtol ''010'' 0) = 8"
    "int_of_long (strtol ''12abc'' 0) = 12"
    by (simp_all add: number_defs)
  moreover have "no_conversion a \<longrightarrow> int_of_long (strtol a 0) = 0"
    by (simp add: strtol_no_conversion int_of_long_def)
  ultimately show ?thesis by simp
qed

theorem integer_option_witness:
  "example_call False [''vlc'', ''--width=0x10''] =
     (Return 0, (example_state [''vlc'', ''--width=0x10''])\<lparr>config_store := [PutInt ''width'' 16]\<rparr>) \<and>
   no_conversion ''notanumber'' \<and>
   example_call False [''vlc'', ''-w'', ''notanumber''] =
     (Return 0, (example_state [''vlc'', ''-w'', ''notanumber''])\<lparr>config_store := [PutInt ''width'' 0]\<rparr>) \<and>
   config_store (snd (example_call True [''vlc'', ''--width'', ''notanumber'', ''-w010''])) =
     [PutInt ''width'' 0, PutInt ''width'' 8]"
  using integer_option [where env = "example_env False" and g = getopt_initialize
      and s = "example_state [''vlc'', ''--width=0x10'']"
      and r = "fst (getopt_step (example_env False) getopt_initialize
                 (example_state [''vlc'', ''--width=0x10'']))"
      and g' = "fst (snd (getopt_step (example_env False) getopt_initialize
                 (example_state [''vlc'', ''--width=0x10''])))"
      and s' = "snd (snd (getopt_step (example_env False) getopt_initialize
                 (example_state [''vlc'', ''--width=0x10''])))"
      and p = "example_item ''width'' (CHR ''w'') CONFIG_ITEM_INTEGER None False"
      and nm = "''width''" and a = "''0x10''" and v = 0]
    integer_option [where env = "example_env False" and g = getopt_initialize
      and s = "example_state [''vlc'', ''-w'', ''notanumber'']"
      and r = "fst (getopt_step (example_env False) getopt_initialize
                 (example_state [''vlc'', ''-w'', ''notanumber'']))"
      and g' = "fst (snd (getopt_step (example_env False) getopt_initialize
                 (example_state [''vlc'', ''-w'', ''notanumber''])))"
      and s' = "snd (snd (getopt_step (example_env False) getopt_initialize
                 (example_state [''vlc'', ''-w'', ''notanumber''])))"
      and p = "example_item ''width'' (CHR ''w'') CONFIG_ITEM_INTEGER None False"
      and nm = "''width''" and a = "''notanumber''" and v = 0]
  by (simp add: eval_defs no_conversion_def)

text \<open>
  C8: when errors are ignored, the caller's array after the call is the caller's array
  before it, for every registry, argument vector and outcome of the allocations: the
  scanner permutes the private copy. In strict mode the scanner works on the caller's
  array and may reorder it, and does no more than reorder it:
  \<open>vlc input.avi --width 3\<close> is left as \<open>vlc --width 3 input.avi\<close>.
\<close>

theorem caller_array_unchanged:
  "caller_argv (snd (config_LoadCmdLine this keyfn h True s)) = caller_argv s \<and>
   mset (caller_argv (snd (config_LoadCmdLine this keyfn h False s))) = mset (caller_argv s) \<and>
   caller_argv (snd (example_call False [''vlc'', ''input.avi'', ''--width'', ''3''])) =
     [''vlc'', ''--width'', ''3'', ''input.avi'']"
proof -
  have "caller_argv (snd (config_LoadCmdLine this keyfn h True s)) = caller_argv s"
    by (simp add: config_LoadCmdLine_def out_of_memory_def parse_loop_caller split: prod.splits)
  moreover have "mset (caller_argv (snd (config_LoadCmdLine this keyfn h False s))) = mset (caller_argv s)"
    by (simp add: config_LoadCmdLine_def out_of_memory_def parse_loop_mset split: prod.splits)
  moreover have "caller_argv (snd (example_call False [''vlc'', ''input.avi'', ''--width'', ''3''])) =
     [''vlc'', ''--width'', ''3'', ''input.avi'']"
    by (simp add: eval_defs)
  ultimately show ?thesis by simp
qed

theorem caller_array_unchanged_witness:
  "caller_argv (snd (example_call True [''vlc'', ''input.avi'', ''--width'', ''3''])) =
     [''vlc'', ''input.avi'', ''--width'', ''3''] \<and>
   config_store (snd (example_call True [''vlc'', ''input.avi'', ''--width'', ''3''])) =
     [PutInt ''width'' 3]"
proof -
  have "config_store (snd (example_call True [''vlc'', ''input.avi'', ''--width'', ''3''])) =
     [PutInt ''width'' 3]"
    by (simp add: eval_defs)
  with caller_array_unchanged [of example_object "\<lambda>_. 0" "[]"
      "example_state [''vlc'', ''input.avi'', ''--width'', ''3'']"]
  show ?thesis by (simp add: example_call_def example_state_def)
qed

text \<open>
  C9, as the spec states it, fails: the second colon does not depend on the type being
  integer. A string with the short option \<open>-v\<close> gets \<open>v::\<close> where the spec
  says \<open>v:\<close>, in tables that fit their arrays. And a descriptor whose name could
  not be allocated adds nothing for its flag: with the first \<open>strdup\<close> failing,
  the \<open>v\<close> of \<open>verbose\<close> is missing.
\<close>

theorem short_option_spec_counterexample:
  "psz_shortopts (snd (build_tables [string_with_v] [])) = ''fv::'' \<and>
   \<not> out_of_bounds (snd (build_tables [string_with_v] [])) \<and>
   concat (map spec_item_shortopts (p_config string_with_v)) = ''fv:'' \<and>
   psz_shortopts (snd (build_tables [example_module] [])) = ''v::fw:I:'' \<and>
   psz_shortopts (snd (build_tables [example_module] [False])) = ''fw:I:''"
  by (simp add: string_with_v_def example_module_def example_item_def table_defs
      spec_item_shortopts_def)

text \<open>
  C9 amended: when every allocation of a name succeeds, the counters of each module
  agree with its items and the tables fit the arrays allocated for them, the
  specification is made of the parts of the descriptors that are not hints, in the
  order of the traversal. For a descriptor with a short option the part is the flag,
  followed by nothing for a boolean, by \<open>::\<close> when the flag is \<open>v\<close> and the
  type is not boolean, by \<open>:\<close> otherwise. It is the part the spec states whenever
  a flag \<open>v\<close> belongs to an integer or a boolean. (A module whose only item is a
  string or an integer with the flag \<open>v\<close> does not fit: \<open>v::\<close> and the NUL are
  four characters, and line 142 allocates three. Nor does a flag from \<open>0x80\<close> on,
  whose index into \<open>pp_shortopts\<close> is negative.)
\<close>

theorem short_option_spec:
  assumes "all_succeed h" and "\<forall>m\<in>set ms. module_counters_ok m"
    and "\<not> out_of_bounds (snd (build_tables ms h))"
  shows "psz_shortopts (snd (build_tables ms h)) =
           concat (map item_shortopts (filter (\<lambda>d. i_type d \<noteq> CONFIG_HINT) (descriptors ms))) \<and>
         (\<forall>d. i_short d \<noteq> CHR 0x00 \<longrightarrow>
            item_shortopts d =
              i_short d #
                (if i_short d = CHR ''v'' \<and> i_type d \<noteq> CONFIG_ITEM_BOOL then ''::''
                 else if i_type d \<noteq> CONFIG_ITEM_BOOL then '':'' else [])) \<and>
         (\<forall>d. i_short d \<noteq> CHR 0x00 \<and> (i_short d = CHR ''v'' \<longrightarrow> i_type d \<in> {CONFIG_ITEM_INTEGER, CONFIG_ITEM_BOOL}) \<longrightarrow>
            item_shortopts d = spec_item_shortopts d)"
  using build_tables_eq(2) [OF assms(1,2)]
  by (auto simp: item_shortopts_def spec_item_shortopts_def)

theorem short_option_spec_witness:
  "all_succeed [] \<and> module_counters_ok example_module \<and>
   \<not> out_of_bounds (snd (build_tables [example_module] [])) \<and>
   psz_shortopts (snd (build_tables [example_module] [])) = ''v::fw:I:'' \<and>
   module_counters_ok string_with_v \<and>
   \<not> out_of_bounds (snd (build_tables [string_with_v] [])) \<and>
   item_shortopts (example_item ''vout'' (CHR ''v'') CONFIG_ITEM_STRING None False) = ''v::'' \<and>
   out_of_bounds (snd (build_tables [only_v] [])) \<and>
   out_of_bounds (snd (build_tables [high_flag] [])) \<and>
   psz_shortopts (snd (build_tables [high_flag] [])) = [CHR 0xE9]"
proof -
  have h: "all_succeed []" "\<forall>m\<in>set [example_module]. module_counters_ok m"
    "\<not> out_of_bounds (snd (build_tables [example_module] []))"
    "\<forall>m\<in>set [string_with_v]. module_counters_ok m"
    "\<not> out_of_bounds (snd (build_tables [string_with_v] []))"
    "out_of_bounds (snd (build_tables [only_v] []))"
    "out_of_bounds (snd (build_tables [high_flag] []))"
    "psz_shortopts (snd (build_tables [high_flag] [])) = [CHR 0xE9]"
    by (simp_all add: all_succeed_def module_counters_ok_def example_module_def example_item_def
        string_with_v_def only_v_def high_flag_def table_defs)
  from short_option_spec [OF h(1,2,3)] short_option_spec [OF h(1,4,5)] h
  show ?thesis
    by (simp add: example_module_def example_item_def string_with_v_def descriptors_def
        item_shortopts_def)
qed

text \<open>
  C10: when errors are ignored and a long option's descriptor names a replacement
  (not removed), line 307 looks the replacement up and line 310 reads \<open>i_type\<close> of
  the result with no test. If the replacement is a descriptor of the registry, the
  switch runs with it; if it is not, the call dereferences the null pointer, after the
  warning and with nothing stored for the option.
\<close>

theorem unchecked_replacement_lookup:
  assumes "getopt_step env g s = (r, g', s')" and "i_cmd r = 0"
    and "config_FindConfig (p_this env) (long_name env r) = Some p_conf"
    and "psz_current p_conf = Some cur" and "\<not> b_strict p_conf" and "b_ignore_errors env"
  shows "(config_FindConfig (p_this env) cur = None \<longrightarrow>
            parse_loop env g v s =
              (Null_dereference, print_stderr [deprecated_message True p_conf cur] s') \<and>
            config_store (snd (parse_loop env g v s)) = config_store s) \<and>
         (\<forall>p_new. config_FindConfig (p_this env) cur = Some p_new \<longrightarrow>
            parse_loop env g v s =
              continue_with env g'
                (store_long env cur (i_type p_new) r v
                   (print_stderr [deprecated_message True p_conf cur] s')))"
  using assms getopt_step_store [OF assms(1)]
  by (simp add: parse_loop_step loop_body_def continue_with_def Let_def print_stderr_def)

theorem unchecked_replacement_lookup_witness:
  "example_call True [''vlc'', ''--old-height=3'', ''-v''] =
     (Null_dereference,
      (example_state [''vlc'', ''--old-height=3'', ''-v''])
        \<lparr>stderr_out := [''Warning: option --old-height is deprecated. Use --height instead.'' @ [CHR 0x0A]],
         private_argv := Some [''vlc'', ''--old-height=3'', ''-v'']\<rparr>) \<and>
   config_FindConfig example_object ''height'' = None"
  using unchecked_replacement_lookup [where env = "example_env True" and g = getopt_initialize
      and s = "(example_state [''vlc'', ''--old-height=3'', ''-v''])
                 \<lparr>private_argv := Some [''vlc'', ''--old-height=3'', ''-v'']\<rparr>"
      and r = "fst (getopt_step (example_env True) getopt_initialize
                 ((example_state [''vlc'', ''--old-height=3'', ''-v''])
                    \<lparr>private_argv := Some [''vlc'', ''--old-height=3'', ''-v'']\<rparr>))"
      and g' = "fst (snd (getopt_step (example_env True) getopt_initialize
                 ((example_state [''vlc'', ''--old-height=3'', ''-v''])
                    \<lparr>private_argv := Some [''vlc'', ''--old-height=3'', ''-v'']\<rparr>)))"
      and s' = "snd (snd (getopt_step (example_env True) getopt_initialize
                 ((example_state [''vlc'', ''--old-height=3'', ''-v''])
                    \<lparr>private_argv := Some [''vlc'', ''--old-height=3'', ''-v'']\<rparr>)))"
      and p_conf = "example_item ''old-height'' (CHR 0x00) CONFIG_ITEM_INTEGER (Some ''height'') False"
      and cur = "''height''" and v = 0]
  by (simp add: eval_defs)

end
